theory Spec2Isabelle
  imports Main "HOL-Library.Word"
begin

unbundle bit_operations_syntax

section \<open>Python values and errors\<close>

text \<open>
  The library is Python: integers are unbounded (\<open>int\<close>), \<open>//\<close> and \<open>%\<close> round
  towards minus infinity as \<open>div\<close> and \<open>mod\<close> do, \<open><<\<close> is \<open>push_bit\<close>, \<open>>>\<close> is
  \<open>drop_bit\<close>. Every exception the modelled code can raise is a value of \<open>error\<close>.
\<close>

datatype error = IndexError | OverflowError | ZeroDivisionError | NameError | SyntaxError

section \<open>class colourFunctions\<close>

text \<open>A packed GlowBit colour is the integer \<open>0x00RRGGBB\<close>.\<close>

type_synonym colour = int

definition wheel :: "int \<Rightarrow> colour" where
  "wheel pos0 =
     (let pos = pos0 mod 255 in
      if pos < 85 then push_bit 16 (255 - pos * 3) OR push_bit 8 (pos * 3)
      else if pos < 170 then
        (let pos = pos - 85 in push_bit 8 (255 - pos * 3) OR (pos * 3))
      else
        (let pos = pos - 170 in push_bit 16 (pos * 3) OR (255 - pos * 3)))"

definition rgb2GBColour :: "int \<Rightarrow> int \<Rightarrow> int \<Rightarrow> colour" where
  "rgb2GBColour r g b = (push_bit 16 r OR push_bit 8 g OR b)"

text \<open>
  The body of \<open>glowbitColour2RGB\<close> (line 89 of the source) is kept below as the text
  \<open>line_89\<close>. It closes one parenthesis more than it opens: the last \<open>)\<close> matches
  nothing, and Python refuses the line with SyntaxError when it compiles the module.
  \<open>unmatched\<close> is the scan that finds such a parenthesis, and
  \<open>glowbitColour2RGB_source\<close> is the function as the source has it.

  \<open>glowbitColour2RGB\<close> is the line with that last parenthesis removed: the tuple of the
  three masked and shifted channels that the doc comment describes. It is a repair of
  the source, not the source; the other sections use it only to read the channels of
  a colour.
\<close>

definition glowbitColour2RGB :: "colour \<Rightarrow> int \<times> int \<times> int" where
  "glowbitColour2RGB colour =
     (drop_bit 16 (colour AND 0xFF0000), drop_bit 8 (colour AND 0xFF00), colour AND 0xFF)"

definition line_89 :: string where
  "line_89 = ''return ( (colour&0xFF0000) >> 16) , (colour&0xFF00)>> 8, (colour&0xFF) )''"

fun unmatched :: "nat \<Rightarrow> string \<Rightarrow> bool" where
  "unmatched depth [] = (depth \<noteq> 0)"
| "unmatched depth (c # cs) =
     (if c = CHR ''('' then unmatched (Suc depth) cs
      else if c = CHR '')'' then (case depth of 0 \<Rightarrow> True | Suc d \<Rightarrow> unmatched d cs)
      else unmatched depth cs)"

definition glowbitColour2RGB_source :: "colour \<Rightarrow> error + int \<times> int \<times> int" where
  "glowbitColour2RGB_source colour =
     (if unmatched 0 line_89 then Inl SyntaxError else Inr (glowbitColour2RGB colour))"

text \<open>
  The largest difference between corresponding channels of two colours; used to say
  that two neighbouring wheel colours are close.
\<close>

definition channel_distance :: "colour \<Rightarrow> colour \<Rightarrow> int" where
  "channel_distance c1 c2 =
     (case (glowbitColour2RGB c1, glowbitColour2RGB c2) of
        ((r1, g1, b1), (r2, g2, b2)) \<Rightarrow> max \<bar>r1 - r2\<bar> (max \<bar>g1 - g2\<bar> \<bar>b1 - b2\<bar>))"

section \<open>The pixel buffer: \<open>array.array("I", ...)\<close>\<close>

text \<open>
  The buffer is an array of unsigned 32-bit items. Indexing follows Python: a negative
  index counts from the end, any other index outside the array raises IndexError. A
  store checks the index first and then the value: in CPython an item outside
  \<open>[0, 2^32)\<close> raises OverflowError, and the model follows it. Every theorem below
  that stores an item stores one inside that range.
\<close>

definition array_index :: "int list \<Rightarrow> int \<Rightarrow> error + nat" where
  "array_index a i =
     (let n = int (length a); j = (if i < 0 then i + n else i)
      in if j < 0 \<or> n \<le> j then Inl IndexError else Inr (nat j))"

definition array_getitem :: "int list \<Rightarrow> int \<Rightarrow> error + int" where
  "array_getitem a i = (case array_index a i of Inl e \<Rightarrow> Inl e | Inr j \<Rightarrow> Inr (a ! j))"

definition array_setitem :: "int list \<Rightarrow> int \<Rightarrow> int \<Rightarrow> error + int list" where
  "array_setitem a i v =
     (case array_index a i of
        Inl e \<Rightarrow> Inl e
      | Inr j \<Rightarrow> if v < 0 \<or> 2 ^ 32 \<le> v then Inl OverflowError else Inr (a[j := v]))"

text \<open>A \<open>for\<close> loop whose body may raise: the first exception ends the loop.\<close>

fun for_each :: "('s \<Rightarrow> 'a \<Rightarrow> error + 's) \<Rightarrow> 'a list \<Rightarrow> 's \<Rightarrow> error + 's" where
  "for_each body [] s = Inr s"
| "for_each body (x # xs) s =
     (case body s x of Inl e \<Rightarrow> Inl e | Inr s' \<Rightarrow> for_each body xs s')"

section \<open>class glowbit\<close>

text \<open>
  The fields of a device that the buffer, the rate limiter and the flush read or write.
  \<open>pixelsShow\<close> is the flush the constructor installed in the object.
\<close>

datatype backend = pixelsShowPico_method | pixelsShowRPi_method

record glowbit =
  ar :: "int list"
  dimmer_ar :: "int list"
  brightness :: int
  rateLimit :: int
  lastFrame_ms :: int
  numLEDs :: int
  pixelsShow :: backend

definition pixelSet :: "'a glowbit_scheme \<Rightarrow> int \<Rightarrow> colour \<Rightarrow> error + 'a glowbit_scheme" where
  "pixelSet self i colour =
     (case array_setitem (ar self) i colour of
        Inl e \<Rightarrow> Inl e
      | Inr a \<Rightarrow> Inr (self\<lparr>ar := a\<rparr>))"

definition pixelAdd :: "'a glowbit_scheme \<Rightarrow> int \<Rightarrow> colour \<Rightarrow> error + 'a glowbit_scheme" where
  "pixelAdd self i colour =
     (case array_getitem (ar self) i of
        Inl e \<Rightarrow> Inl e
      | Inr old \<Rightarrow>
          (let tmp = old + colour in
           case array_setitem (ar self) i tmp of
             Inl e \<Rightarrow> Inl e
           | Inr a \<Rightarrow> Inr (self\<lparr>ar := a\<rparr>)))"

definition pixelsFill :: "'a glowbit_scheme \<Rightarrow> colour \<Rightarrow> error + 'a glowbit_scheme" where
  "pixelsFill self colour =
     (case for_each (\<lambda>a i. array_setitem a i colour) [0 .. int (length (ar self)) - 1] (ar self) of
        Inl e \<Rightarrow> Inl e
      | Inr a \<Rightarrow> Inr (self\<lparr>ar := a\<rparr>))"

definition getPixel :: "'a glowbit_scheme \<Rightarrow> int \<Rightarrow> error + colour" where
  "getPixel self N = array_getitem (ar self) N"

section \<open>class glowbitMatrix\<close>

text \<open>
  \<open>remap\<close> is the bound method (or the caller's function) stored by the constructor;
  the built-in ones are \<open>remap4x4\<close> and \<open>remap8x8\<close> below.
\<close>

record glowbitMatrix = glowbit +
  numLEDsX :: int
  numLEDsY :: int
  remap :: "int \<Rightarrow> int \<Rightarrow> int"

definition pixelSetXY ::
  "'a glowbitMatrix_scheme \<Rightarrow> int \<Rightarrow> int \<Rightarrow> colour \<Rightarrow> error + 'a glowbitMatrix_scheme" where
  "pixelSetXY self x0 y0 colour =
     (if numLEDsX self = 0 then Inl ZeroDivisionError
      else let x = x0 mod numLEDsX self in
        if numLEDsY self = 0 then Inl ZeroDivisionError
        else let y = y0 mod numLEDsY self in
          case array_setitem (ar self) (remap self x y) colour of
            Inl e \<Rightarrow> Inl e
          | Inr a \<Rightarrow> Inr (self\<lparr>ar := a\<rparr>))"

definition pixelSetXYClip ::
  "'a glowbitMatrix_scheme \<Rightarrow> int \<Rightarrow> int \<Rightarrow> colour \<Rightarrow> error + 'a glowbitMatrix_scheme" where
  "pixelSetXYClip self x y colour =
     (if x \<ge> 0 \<and> y \<ge> 0 \<and> x < numLEDsX self \<and> y < numLEDsY self then
        (case array_setitem (ar self) (remap self x y) colour of
           Inl e \<Rightarrow> Inl e
         | Inr a \<Rightarrow> Inr (self\<lparr>ar := a\<rparr>))
      else Inr self)"

text \<open>
  \<open>getPixelXY\<close> evaluates \<open>self.ar[remap(x,y)]\<close>: the name \<open>remap\<close> is not a local
  of the method, so it is looked up among the module's globals, given here as the
  environment \<open>globals\<close> of two-argument functions. \<open>module_globals\<close> is the
  environment the module itself builds: it binds no function \<open>remap\<close> (the only
  bindings of that name are the attribute \<open>self.remap\<close> and a local of \<open>drawChar\<close>).
\<close>

definition module_globals :: "string \<rightharpoonup> (int \<Rightarrow> int \<Rightarrow> int)" where
  "module_globals = Map.empty"

definition getPixelXY ::
  "(string \<rightharpoonup> (int \<Rightarrow> int \<Rightarrow> int)) \<Rightarrow> 'a glowbitMatrix_scheme \<Rightarrow> int \<Rightarrow> int \<Rightarrow> error + colour" where
  "getPixelXY globals self x y =
     (case globals ''remap'' of
        None \<Rightarrow> Inl NameError
      | Some f \<Rightarrow> array_getitem (ar self) (f x y))"

definition drawRectangleFill ::
  "'a glowbitMatrix_scheme \<Rightarrow> int \<Rightarrow> int \<Rightarrow> int \<Rightarrow> int \<Rightarrow> colour \<Rightarrow> error + 'a glowbitMatrix_scheme" where
  "drawRectangleFill self x0 y0 x1 y1 colour =
     for_each (\<lambda>s x. for_each (\<lambda>s' y. pixelSetXY s' x y colour) [y0 .. y1] s) [x0 .. x1] self"

section \<open>The built-in remappers\<close>

definition remap4x4 :: "int \<Rightarrow> int \<Rightarrow> int" where
  "remap4x4 x y =
     (let mc = x div 4;
          mx = x - 4 * mc;
          TopLeftIndex = mc * 16;
          LEDsBefore = 4 * y + x - 4 * mc
      in TopLeftIndex + LEDsBefore)"

text \<open>\<open>remap8x8\<close> reads \<open>self.tileCols\<close>, its first argument here.\<close>

definition remap8x8 :: "int \<Rightarrow> int \<Rightarrow> int \<Rightarrow> int" where
  "remap8x8 tileCols x y =
     (if (y div 8) mod 2 = 0 then
        64 * ((y div 8) * tileCols + x div 8) + (8 * (y mod 8) + x mod 8)
      else
        64 * ((y div 8) * tileCols + (tileCols - x div 8 - 1)) + (8 * (y mod 8) + x mod 8))"

text \<open>
  A matrix device is well formed when both dimensions are positive and the remapper
  sends every coordinate of the canvas to an index of the buffer. The constructors
  \<open>matrix4x4\<close> and \<open>matrix8x8\<close> build such devices from positive tile counts.
\<close>

definition geometry_ok :: "'a glowbitMatrix_scheme \<Rightarrow> bool" where
  "geometry_ok self \<longleftrightarrow>
     0 < numLEDsX self \<and> 0 < numLEDsY self \<and>
     (\<forall>x \<in> {0 ..< numLEDsX self}. \<forall>y \<in> {0 ..< numLEDsY self}.
        0 \<le> remap self x y \<and> remap self x y < int (length (ar self)))"

section \<open>The rate limiter and the flush\<close>

text \<open>
  The clock \<open>self.ticks_ms\<close> is an external collaborator: it is modelled by the list
  of the readings it will return, one per call (integers, as \<open>time.ticks_ms\<close> gives
  on the microcontroller; the Linux clock \<open>time.time()*1000\<close> is a float and is not
  modelled). A run that needs a reading when the list is empty is \<open>Spin\<close>: the list is
  too short to tell how the run ends, as when the busy-wait never sees the deadline.
  \<open>Raise\<close> is an exception, \<open>Done\<close> a normal return. \<open>gc.collect()\<close> has no effect
  on the modelled state and is left out.
\<close>

datatype 'a run = Done 'a | Raise error | Spin

fun syncWait_poll :: "int \<Rightarrow> int \<Rightarrow> int list \<Rightarrow> (int list) run" where
  "syncWait_poll lastFrame rate [] = Spin"
| "syncWait_poll lastFrame rate (now # ticks) =
     (if rate = 0 then Raise ZeroDivisionError
      else if now < lastFrame + 1000 div rate then syncWait_poll lastFrame rate ticks
      else Done ticks)"

definition syncWait :: "'a glowbit_scheme \<Rightarrow> int list \<Rightarrow> ('a glowbit_scheme \<times> int list) run" where
  "syncWait self ticks =
     (case syncWait_poll (lastFrame_ms self) (rateLimit self) ticks of
        Raise e \<Rightarrow> Raise e
      | Spin \<Rightarrow> Spin
      | Done [] \<Rightarrow> Spin
      | Done (now # ticks') \<Rightarrow> Done (self\<lparr>lastFrame_ms := now\<rparr>, ticks'))"

text \<open>
  The transport is the other external collaborator: a flush returns the calls it made
  to it, in order. \<open>sm_put v 8\<close> is \<open>self.sm.put(v, 8)\<close>.
\<close>

datatype call = sm_put int int | strip_setPixelColor int int | strip_show

definition pixelsShowPico ::
  "'a glowbit_scheme \<Rightarrow> int list \<Rightarrow> ('a glowbit_scheme \<times> int list \<times> call list) run" where
  "pixelsShowPico self0 ticks0 =
     (case syncWait self0 ticks0 of
        Raise e \<Rightarrow> Raise e
      | Spin \<Rightarrow> Spin
      | Done (self, ticks) \<Rightarrow>
          (let br = brightness self in
           case for_each
                  (\<lambda>(dar, calls) (i, c).
                     let r = drop_bit 8 ((drop_bit 16 c AND 0xFF) * br);
                         g = drop_bit 8 ((drop_bit 8 c AND 0xFF) * br);
                         b = drop_bit 8 ((c AND 0xFF) * br)
                     in case array_setitem dar (int i) (push_bit 16 g OR push_bit 8 r OR b) of
                          Inl e \<Rightarrow> Inl e
                        | Inr dar' \<Rightarrow>
                            (case array_getitem dar' (int i) of
                               Inl e \<Rightarrow> Inl e
                             | Inr v \<Rightarrow> Inr (dar', calls @ [sm_put v 8])))
                  (enumerate 0 (ar self)) (dimmer_ar self, [])
           of Inl e \<Rightarrow> Raise e
            | Inr (dar, calls) \<Rightarrow> Done (self\<lparr>dimmer_ar := dar\<rparr>, ticks, calls)))"

definition pixelsShowRPi ::
  "'a glowbit_scheme \<Rightarrow> int list \<Rightarrow> ('a glowbit_scheme \<times> int list \<times> call list) run" where
  "pixelsShowRPi self0 ticks0 =
     (case syncWait self0 ticks0 of
        Raise e \<Rightarrow> Raise e
      | Spin \<Rightarrow> Spin
      | Done (self, ticks) \<Rightarrow>
          (let br = brightness self in
           Done (self, ticks,
             map (\<lambda>(i, c).
                    let r = drop_bit 8 ((drop_bit 16 c AND 0xFF) * br);
                        g = drop_bit 8 ((drop_bit 8 c AND 0xFF) * br);
                        b = drop_bit 8 ((c AND 0xFF) * br)
                    in strip_setPixelColor (int i) (push_bit 16 r OR push_bit 8 g OR b))
                 (enumerate 0 (ar self))
             @ [strip_show])))"

text \<open>
  The code does not read the clock when it calls the transport. To measure when a
  frame is handed over, the transport is given the clock: \<open>pixelsShowRPi_stamped\<close> is
  the flush followed by one more reading, taken as \<open>strip.show()\<close> is called, and
  returns that reading as the time of the push.
\<close>

definition pixelsShowRPi_stamped ::
  "'a glowbit_scheme \<Rightarrow> int list \<Rightarrow> ('a glowbit_scheme \<times> int list \<times> int) run" where
  "pixelsShowRPi_stamped self0 ticks0 =
     (case pixelsShowRPi self0 ticks0 of
        Raise e \<Rightarrow> Raise e
      | Spin \<Rightarrow> Spin
      | Done (self, [], calls) \<Rightarrow> Spin
      | Done (self, push # ticks, calls) \<Rightarrow> Done (self, ticks, push))"

definition call_pixelsShow ::
  "'a glowbit_scheme \<Rightarrow> int list \<Rightarrow> ('a glowbit_scheme \<times> int list \<times> call list) run" where
  "call_pixelsShow self ticks =
     (case pixelsShow self of
        pixelsShowPico_method \<Rightarrow> pixelsShowPico self ticks
      | pixelsShowRPi_method \<Rightarrow> pixelsShowRPi self ticks)"

definition blankDisplay ::
  "'a glowbit_scheme \<Rightarrow> int list \<Rightarrow> ('a glowbit_scheme \<times> int list \<times> call list) run" where
  "blankDisplay self ticks =
     (case for_each (\<lambda>a i. array_setitem a i 0) [0 .. int (length (ar self)) - 1] (ar self) of
        Inl e \<Rightarrow> Raise e
      | Inr a \<Rightarrow> call_pixelsShow (self\<lparr>ar := a\<rparr>) ticks)"

section \<open>The matrix constructors\<close>

text \<open>
  The constructors on the microcontroller platform (\<open>_SYSNAME == 'rp2'\<close>), with an
  integer brightness (a float brightness is converted with floating-point arithmetic,
  which is not modelled). \<open>matrix4x4_fields\<close> and \<open>matrix8x8_fields\<close> are the object
  after the field assignments, \<open>now\<close> being the clock reading stored in
  \<open>lastFrame_ms\<close>; the constructors then blank the display, which flushes.
  \<open>mapFunction\<close> is the caller's remapper, if any (the constructor prints it; the print
  is left out). The 8x8 remapper is stored with the \<open>tileCols\<close> it reads from the object,
  which no method changes.
\<close>

definition matrix4x4_fields ::
  "int \<Rightarrow> int \<Rightarrow> (int \<Rightarrow> int \<Rightarrow> int) option \<Rightarrow> int \<Rightarrow> int \<Rightarrow> glowbitMatrix" where
  "matrix4x4_fields tiles brightness' mapFunction rateLimitFPS now =
     \<lparr>ar = replicate (nat (tiles * 16)) 0,
      dimmer_ar = replicate (nat (tiles * 16)) 0,
      brightness = brightness',
      rateLimit = (if rateLimitFPS > 0 then rateLimitFPS else 100),
      lastFrame_ms = now,
      numLEDs = tiles * 16,
      pixelsShow = pixelsShowPico_method,
      numLEDsX = tiles * 4,
      numLEDsY = 4,
      remap = (case mapFunction of Some f \<Rightarrow> f | None \<Rightarrow> remap4x4)\<rparr>"

definition matrix4x4_init ::
  "int \<Rightarrow> int \<Rightarrow> (int \<Rightarrow> int \<Rightarrow> int) option \<Rightarrow> int \<Rightarrow> int list
     \<Rightarrow> (glowbitMatrix \<times> int list \<times> call list) run" where
  "matrix4x4_init tiles brightness' mapFunction rateLimitFPS ticks0 =
     (case ticks0 of
        [] \<Rightarrow> Spin
      | now # ticks1 \<Rightarrow>
          (case pixelsFill (matrix4x4_fields tiles brightness' mapFunction rateLimitFPS now) 0 of
             Inl e \<Rightarrow> Raise e
           | Inr self1 \<Rightarrow>
               (case call_pixelsShow self1 ticks1 of
                  Raise e \<Rightarrow> Raise e
                | Spin \<Rightarrow> Spin
                | Done (self2, ticks2, calls1) \<Rightarrow>
                    (case call_pixelsShow self2 ticks2 of
                       Raise e \<Rightarrow> Raise e
                     | Spin \<Rightarrow> Spin
                     | Done (self3, ticks3, calls2) \<Rightarrow> Done (self3, ticks3, calls1 @ calls2)))))"

definition matrix8x8_fields ::
  "int \<Rightarrow> int \<Rightarrow> int \<Rightarrow> (int \<Rightarrow> int \<Rightarrow> int) option \<Rightarrow> int \<Rightarrow> int \<Rightarrow> int \<Rightarrow> glowbitMatrix" where
  "matrix8x8_fields tileRows tileCols brightness' mapFunction rateLimitFPS
       rateLimitCharactersPerSecond now =
     \<lparr>ar = replicate (nat (tileRows * tileCols * 64)) 0,
      dimmer_ar = replicate (nat (tileRows * tileCols * 64)) 0,
      brightness = brightness',
      rateLimit = (if rateLimitFPS > 0 then rateLimitFPS
                   else if rateLimitCharactersPerSecond > 0 then rateLimitCharactersPerSecond * 8
                   else 30),
      lastFrame_ms = now,
      numLEDs = tileRows * tileCols * 64,
      pixelsShow = pixelsShowPico_method,
      numLEDsX = tileCols * 8,
      numLEDsY = tileRows * 8,
      remap = (case mapFunction of Some f \<Rightarrow> f | None \<Rightarrow> remap8x8 tileCols)\<rparr>"

definition matrix8x8_init ::
  "int \<Rightarrow> int \<Rightarrow> int \<Rightarrow> (int \<Rightarrow> int \<Rightarrow> int) option \<Rightarrow> int \<Rightarrow> int \<Rightarrow> int list
     \<Rightarrow> (glowbitMatrix \<times> int list \<times> call list) run" where
  "matrix8x8_init tileRows tileCols brightness' mapFunction rateLimitFPS
       rateLimitCharactersPerSecond ticks0 =
     (case ticks0 of
        [] \<Rightarrow> Spin
      | now # ticks1 \<Rightarrow>
          blankDisplay
            (matrix8x8_fields tileRows tileCols brightness' mapFunction rateLimitFPS
               rateLimitCharactersPerSecond now)
            ticks1)"

section \<open>class glowbitMatrix.graph1D\<close>

text \<open>
  The graph object and its constructor, for integer arguments. The field \<open>m\<close>, the
  floating-point quotient \<open>length / (maxValue - minValue)\<close>, is not part of the model;
  the exceptions its division raises in CPython are: ZeroDivisionError for a zero
  divisor, and OverflowError when the quotient, rounded to the nearest double, is not
  finite, that is when its magnitude reaches \<open>2^1024 - 2^970\<close>. The \<open>colourMap\<close>
  argument is a callable or a name; the field is left unset (\<open>None\<close>) for an unknown
  name. The constructor returns the lines it printed and the object, or the exception.
\<close>

datatype colourMapArg = Callable "int \<Rightarrow> int \<Rightarrow> int \<Rightarrow> int" | Named string

datatype colourMap =
  colourMapSolid | colourMapRainbow | colourMapCallable "int \<Rightarrow> int \<Rightarrow> int \<Rightarrow> int"

record graph1D =
  minValue :: int
  maxValue :: int
  originX :: int
  originY :: int
  length_g :: int
  orientation :: int
  inc :: int
  update_g :: bool
  colour_g :: int
  colourMap :: "colourMap option"

definition graph1D_init ::
  "int \<Rightarrow> int \<Rightarrow> int \<Rightarrow> string \<Rightarrow> int \<Rightarrow> int \<Rightarrow> int \<Rightarrow> colourMapArg \<Rightarrow> bool
     \<Rightarrow> string list \<times> (error + graph1D)" where
  "graph1D_init originX' originY' length' direction minValue' maxValue' colour' colourMap' update' =
     (let (orientation0, inc0) = (- 1, 0);
          (orientation1, inc1) = (if direction = ''Up'' then (1, - 1) else (orientation0, inc0));
          (orientation2, inc2) = (if direction = ''Down'' then (1, 1) else (orientation1, inc1));
          (orientation3, inc3) = (if direction = ''Left'' then (0, - 1) else (orientation2, inc2));
          (orientation4, inc4) = (if direction = ''Right'' then (0, 1) else (orientation3, inc3));
          (printed, orientation5, inc5) =
            (if orientation4 = - 1 \<or> inc4 = 0 then
               ([''Invalid direction '' @ [CHR 0x22] @ '' '' @ direction @ '' '' @ [CHR 0x22] @ ''.'',
                 ''Valid options: Up, Down, Left, Right'',
                 ''Defaulting to Up''], 1, 1)
             else ([], orientation4, inc4))
      in if maxValue' - minValue' = 0 then (printed, Inl ZeroDivisionError)
         else if (2 ^ 1024 - 2 ^ 970) * \<bar>maxValue' - minValue'\<bar> \<le> \<bar>length'\<bar>
           then (printed, Inl OverflowError)
         else (printed, Inr
           \<lparr>minValue = minValue', maxValue = maxValue', originX = originX', originY = originY',
            length_g = length', orientation = orientation5, inc = inc5, update_g = update',
            colour_g = colour',
            colourMap =
              (case colourMap' of
                 Callable f \<Rightarrow> Some (colourMapCallable f)
               | Named n \<Rightarrow>
                   if n = ''Solid'' then Some colourMapSolid
                   else if n = ''Rainbow'' then Some colourMapRainbow
                   else None)\<rparr>))"

text \<open>
  What a flush is expected to hand over. \<open>scaled_channels d br c\<close> are the three
  channels of the buffer entry \<open>c\<close>, each multiplied by the brightness and divided by
  \<open>d\<close>, rounding down. \<open>wire_RGB\<close> and \<open>wire_GRB\<close> pack the channels scaled with
  \<open>d = 256\<close> in the two wire orders.
\<close>

definition scaled_channels :: "int \<Rightarrow> int \<Rightarrow> colour \<Rightarrow> int \<times> int \<times> int" where
  "scaled_channels d br c =
     (case glowbitColour2RGB c of (r, g, b) \<Rightarrow> ((r * br) div d, (g * br) div d, (b * br) div d))"

definition wire_RGB :: "int \<Rightarrow> colour \<Rightarrow> int" where
  "wire_RGB br c = (case scaled_channels 256 br c of (r, g, b) \<Rightarrow> rgb2GBColour r g b)"

definition wire_GRB :: "int \<Rightarrow> colour \<Rightarrow> int" where
  "wire_GRB br c = (case scaled_channels 256 br c of (r, g, b) \<Rightarrow> rgb2GBColour g r b)"

section \<open>The colour codec\<close>

lemma byte_take_bit: "0 \<le> (r::int) \<Longrightarrow> r \<le> 255 \<Longrightarrow> take_bit 8 r = r"
  by (simp add: take_bit_int_eq_self)

lemma mask_FF: "(0xFF::int) = mask 8"
  by (simp add: mask_eq_exp_minus_1)

lemma mask_FF00: "(0xFF00::int) = push_bit 8 (mask 8)"
  by (simp add: mask_eq_exp_minus_1 push_bit_eq_mult)

lemma mask_FF0000: "(0xFF0000::int) = push_bit 16 (mask 8)"
  by (simp add: mask_eq_exp_minus_1 push_bit_eq_mult)

lemma unpack_pack_take_bit:
  "glowbitColour2RGB (rgb2GBColour (take_bit 8 r) (take_bit 8 g) (take_bit 8 b))
     = (take_bit 8 r, take_bit 8 g, take_bit 8 b)"
  unfolding glowbitColour2RGB_def rgb2GBColour_def mask_FF mask_FF00 mask_FF0000
  apply (intro conjI prod.inject [THEN iffD2] bit_eqI)
    apply (auto simp add: bit_simps)
  done

lemma unpack_pack:
  assumes "0 \<le> r" "r \<le> 255" "0 \<le> g" "g \<le> 255" "0 \<le> b" "b \<le> 255"
  shows "glowbitColour2RGB (rgb2GBColour r g b) = (r, g, b)"
  using unpack_pack_take_bit [of r g b] assms by (simp add: byte_take_bit)

text \<open>
  With the stray parenthesis removed, unpacking a packed colour gives back the three
  channels, for all channel values in \<open>[0,255]\<close>.
\<close>

theorem colour_roundtrip:
  "0 \<le> r \<and> r \<le> 255 \<and> 0 \<le> g \<and> g \<le> 255 \<and> 0 \<le> b \<and> b \<le> 255
   \<longrightarrow> glowbitColour2RGB (rgb2GBColour r g b) = (r, g, b)"
  using unpack_pack [of r g b] by blast

theorem colour_roundtrip_witness:
  "(0::int) \<le> 18 \<and> (18::int) \<le> 255 \<and> (0::int) \<le> 52 \<and> (52::int) \<le> 255
   \<and> (0::int) \<le> 255 \<and> (255::int) \<le> 255
   \<and> glowbitColour2RGB (rgb2GBColour 18 52 255) = (18, 52, 255)"
  using colour_roundtrip [of 18 52 255] by simp

text \<open>
  C4. The round trip is what the code means to do and, with the parenthesis removed,
  does. As the source stands it does not: line 89 has a closing parenthesis that
  matches nothing, so \<open>glowbitColour2RGB(rgb2GBColour(18, 52, 255))\<close> ends in
  SyntaxError instead of returning (18, 52, 255).
\<close>

theorem glowbitColour2RGB_source_SyntaxError:
  "unmatched 0 line_89
   \<and> glowbitColour2RGB_source (rgb2GBColour 18 52 255) = Inl SyntaxError
   \<and> glowbitColour2RGB (rgb2GBColour 18 52 255) = (18, 52, 255)"
proof -
  have u: "unmatched 0 line_89" by (simp add: line_89_def)
  have "glowbitColour2RGB (rgb2GBColour 18 52 255) = (18, 52, 255)"
    by (rule unpack_pack) simp_all
  with u show ?thesis by (simp add: glowbitColour2RGB_source_def)
qed

subsection \<open>The colour wheel\<close>

lemma wheel_rgb:
  "glowbitColour2RGB (wheel pos) =
     (let p = pos mod 255 in
      if p < 85 then (255 - p * 3, p * 3, 0)
      else if p < 170 then (0, 255 - (p - 85) * 3, (p - 85) * 3)
      else ((p - 170) * 3, 0, 255 - (p - 170) * 3))"
proof -
  define p where "p = pos mod 255"
  have range: "0 \<le> p" "p < 255" by (simp_all add: p_def)
  consider "p < 85" | "85 \<le> p" "p < 170" | "170 \<le> p" by linarith
  then show ?thesis
  proof cases
    case 1
    have "wheel pos = rgb2GBColour (255 - p * 3) (p * 3) 0"
      using 1 by (simp add: wheel_def rgb2GBColour_def p_def Let_def)
    then show ?thesis
      using 1 range unpack_pack [of "255 - p * 3" "p * 3" 0] by (simp add: p_def Let_def)
  next
    case 2
    have "wheel pos = rgb2GBColour 0 (255 - (p - 85) * 3) ((p - 85) * 3)"
      using 2 by (simp add: wheel_def rgb2GBColour_def p_def Let_def)
    then show ?thesis
      using 2 range unpack_pack [of 0 "255 - (p - 85) * 3" "(p - 85) * 3"]
      by (simp add: p_def Let_def)
  next
    case 3
    have "wheel pos = rgb2GBColour ((p - 170) * 3) 0 (255 - (p - 170) * 3)"
      using 3 by (simp add: wheel_def rgb2GBColour_def p_def Let_def)
    then show ?thesis
      using 3 range unpack_pack [of "(p - 170) * 3" 0 "255 - (p - 170) * 3"]
      by (simp add: p_def Let_def)
  qed
qed

lemma wheel_periodic: "wheel (pos + 255) = wheel pos"
  by (simp add: wheel_def)

lemma wheel_step: "channel_distance (wheel pos) (wheel (pos + 1)) = 3"
proof -
  define p where "p = pos mod 255"
  have range: "0 \<le> p" "p < 255" by (simp_all add: p_def)
  have "(pos + 1) mod 255 = (p + 1) mod 255"
    by (simp add: p_def mod_add_left_eq)
  then have next_pos: "(pos + 1) mod 255 = (if p = 254 then 0 else p + 1)"
    using range by auto
  show ?thesis
    unfolding channel_distance_def wheel_rgb next_pos Let_def p_def [symmetric]
    using range by (auto simp add: max_def)
qed

text \<open>
  C7. The wheel takes the same value at 0 and 255, and across each segment boundary
  (84 to 85, 169 to 170) no channel moves by more than 3, which is the amount every
  channel moves between any two neighbouring positions of a segment.
\<close>

theorem wheel_continuity:
  "wheel 0 = wheel 255
   \<and> glowbitColour2RGB (wheel 84) = (3, 252, 0)
   \<and> glowbitColour2RGB (wheel 85) = (0, 255, 0)
   \<and> glowbitColour2RGB (wheel 169) = (0, 3, 252)
   \<and> glowbitColour2RGB (wheel 170) = (0, 0, 255)
   \<and> channel_distance (wheel 84) (wheel 85) \<le> 3
   \<and> channel_distance (wheel 169) (wheel 170) \<le> 3"
  using wheel_step [of 84] wheel_step [of 169]
  by (simp add: wheel_rgb) (simp add: wheel_def)

section \<open>Array accesses inside the buffer\<close>

lemma array_index_in_range:
  "0 \<le> i \<Longrightarrow> i < int (length a) \<Longrightarrow> array_index a i = Inr (nat i)"
  by (simp add: array_index_def)

lemma array_setitem_in_range:
  "0 \<le> i \<Longrightarrow> i < int (length a) \<Longrightarrow> 0 \<le> v \<Longrightarrow> v < 2 ^ 32
     \<Longrightarrow> array_setitem a i v = Inr (a[nat i := v])"
  by (simp add: array_setitem_def array_index_in_range)

lemma array_getitem_in_range:
  "0 \<le> i \<Longrightarrow> i < int (length a) \<Longrightarrow> array_getitem a i = Inr (a ! nat i)"
  by (simp add: array_getitem_def array_index_in_range)

section \<open>The remappers\<close>

lemma remap8x8_local:
  "remap8x8 tileCols x y =
     64 * ((y div 8) * tileCols + (if even (y div 8) then x div 8 else tileCols - 1 - x div 8))
       + (8 * (y mod 8) + x mod 8)"
  by (simp add: remap8x8_def even_iff_mod_2_eq_zero)

lemma remap8x8_tile:
  assumes "8 * tc \<le> x" "x < 8 * tc + 8" "8 * tr \<le> y" "y < 8 * tr + 8"
  shows "remap8x8 tileCols x y =
     64 * (tr * tileCols + (if even tr then tc else tileCols - 1 - tc))
       + (8 * (y - 8 * tr) + (x - 8 * tc))"
proof -
  have xd: "x div 8 = tc" using assms by linarith
  have yd: "y div 8 = tr" using assms by linarith
  have xm: "x mod 8 = x - 8 * tc" using xd by (simp add: minus_mult_div_eq_mod [symmetric])
  have ym: "y mod 8 = y - 8 * tr" using yd by (simp add: minus_mult_div_eq_mod [symmetric])
  show ?thesis unfolding remap8x8_local xd yd xm ym by simp
qed

lemma remap8x8_block:
  "(\<lambda>(x, y). remap8x8 tileCols x y) ` ({8 * tc ..< 8 * tc + 8} \<times> {8 * tr ..< 8 * tr + 8})
     = {64 * (tr * tileCols + (if even tr then tc else tileCols - 1 - tc)) ..<
        64 * (tr * tileCols + (if even tr then tc else tileCols - 1 - tc)) + 64}"
  (is "?f ` ?D = {?lo ..< ?lo + 64}")
proof (intro equalityI subsetI)
  fix a assume "a \<in> ?f ` ?D"
  then obtain x y where xy: "8 * tc \<le> x" "x < 8 * tc + 8" "8 * tr \<le> y" "y < 8 * tr + 8"
    and a: "a = remap8x8 tileCols x y" by auto
  show "a \<in> {?lo ..< ?lo + 64}"
    unfolding a remap8x8_tile [OF xy] using xy by auto
next
  fix a assume "a \<in> {?lo ..< ?lo + 64}"
  then have r: "0 \<le> a - ?lo" "a - ?lo < 64" by auto
  define d where "d = a - ?lo"
  define x where "x = 8 * tc + d mod 8"
  define y where "y = 8 * tr + d div 8"
  have d: "0 \<le> d" "d < 64" using r by (simp_all add: d_def)
  have xy: "8 * tc \<le> x" "x < 8 * tc + 8" "8 * tr \<le> y" "y < 8 * tr + 8"
    using d by (auto simp add: x_def y_def)
  have "remap8x8 tileCols x y = ?lo + (8 * (d div 8) + d mod 8)"
    unfolding remap8x8_tile [OF xy] by (simp add: x_def y_def)
  then have "remap8x8 tileCols x y = a" by (simp add: d_def)
  moreover have "(x, y) \<in> ?D" using xy by simp
  ultimately show "a \<in> ?f ` ?D" by force
qed

lemma remap4x4_range:
  assumes "0 \<le> x" "x < 4 * tiles" "0 \<le> y" "y < 4"
  shows "0 \<le> remap4x4 x y" "remap4x4 x y < 16 * tiles"
proof -
  have e: "remap4x4 x y = 16 * (x div 4) + 4 * y + x mod 4"
    by (simp add: remap4x4_def Let_def minus_mult_div_eq_mod [symmetric])
  have d: "0 \<le> x div 4" "x div 4 < tiles" using assms by linarith+
  have m: "0 \<le> x mod 4" "x mod 4 < 4" by simp_all
  show "0 \<le> remap4x4 x y" unfolding e using d m assms by linarith
  show "remap4x4 x y < 16 * tiles" unfolding e using d m assms by linarith
qed

lemma remap8x8_range:
  assumes "0 \<le> x" "x < 8 * tileCols" "0 \<le> y" "y < 8 * tileRows"
  shows "0 \<le> remap8x8 tileCols x y" "remap8x8 tileCols x y < 64 * (tileRows * tileCols)"
proof -
  define tc where "tc = x div 8"
  define tr where "tr = y div 8"
  define k where "k = tr * tileCols + (if even tr then tc else tileCols - 1 - tc)"
  have tc: "0 \<le> tc" "tc < tileCols" using assms unfolding tc_def by linarith+
  have tr: "0 \<le> tr" "tr < tileRows" using assms unfolding tr_def by linarith+
  have e: "remap8x8 tileCols x y = 64 * k + (8 * (y mod 8) + x mod 8)"
    by (simp add: remap8x8_def k_def tc_def tr_def even_iff_mod_2_eq_zero)
  have "0 \<le> tr * tileCols" using tr tc by simp
  then have k0: "0 \<le> k" using tc by (simp add: k_def)
  have "(tr + 1) * tileCols \<le> tileRows * tileCols"
    using tr tc by (intro mult_right_mono) simp_all
  then have k1: "k + 1 \<le> tileRows * tileCols" using tc by (simp add: k_def algebra_simps)
  have m: "0 \<le> x mod 8" "x mod 8 < 8" "0 \<le> y mod 8" "y mod 8 < 8" by simp_all
  show "0 \<le> remap8x8 tileCols x y" unfolding e using k0 m by linarith
  show "remap8x8 tileCols x y < 64 * (tileRows * tileCols)" unfolding e using k1 m by linarith
qed

text \<open>
  C2. With \<open>tileCols = 2\<close> the 8x8 remapper sends (0,0), (7,0), (8,0) to 0, 7, 64. In
  general the tile in tile-row \<open>tr\<close> and tile-column \<open>tc\<close> of a \<open>tileRows\<close> by \<open>tileCols\<close>
  grid is the \<open>k\<close>-th tile of the chain, where \<open>k\<close> counts the columns left to right in
  an even tile-row and right to left in an odd one; its 64 LEDs take exactly the
  addresses \<open>64 k, ..., 64 k + 63\<close>, inside the buffer, in row-major order within the tile.
\<close>

theorem remap8x8_serpentine_tiles:
  "remap8x8 2 0 0 = 0 \<and> remap8x8 2 7 0 = 7 \<and> remap8x8 2 8 0 = 64
   \<and> (0 \<le> tc \<and> tc < tileCols \<and> 0 \<le> tr \<and> tr < tileRows \<longrightarrow>
        (let k = tr * tileCols + (if even tr then tc else tileCols - 1 - tc) in
           0 \<le> k \<and> k < tileRows * tileCols
           \<and> (\<lambda>(x, y). remap8x8 tileCols x y) ` ({8 * tc ..< 8 * tc + 8} \<times> {8 * tr ..< 8 * tr + 8})
               = {64 * k ..< 64 * k + 64}
           \<and> (\<forall>x \<in> {8 * tc ..< 8 * tc + 8}. \<forall>y \<in> {8 * tr ..< 8 * tr + 8}.
                 remap8x8 tileCols x y = 64 * k + (8 * (y mod 8) + x mod 8))))"
proof (intro conjI impI)
  show "remap8x8 2 0 0 = 0" "remap8x8 2 7 0 = 7" "remap8x8 2 8 0 = 64"
    by (simp_all add: remap8x8_def)
next
  assume a: "0 \<le> tc \<and> tc < tileCols \<and> 0 \<le> tr \<and> tr < tileRows"
  define k where "k = tr * tileCols + (if even tr then tc else tileCols - 1 - tc)"
  have "0 \<le> tr * tileCols" using a by simp
  then have k0: "0 \<le> k" using a by (simp add: k_def)
  have "(tr + 1) * tileCols \<le> tileRows * tileCols"
    using a by (intro mult_right_mono) simp_all
  then have k1: "k < tileRows * tileCols" using a by (simp add: k_def algebra_simps)
  have local: "\<forall>x \<in> {8 * tc ..< 8 * tc + 8}. \<forall>y \<in> {8 * tr ..< 8 * tr + 8}.
      remap8x8 tileCols x y = 64 * k + (8 * (y mod 8) + x mod 8)"
  proof (intro ballI)
    fix x y assume "x \<in> {8 * tc ..< 8 * tc + 8}" "y \<in> {8 * tr ..< 8 * tr + 8}"
    then have "x div 8 = tc" "y div 8 = tr" by auto
    then show "remap8x8 tileCols x y = 64 * k + (8 * (y mod 8) + x mod 8)"
      by (simp add: remap8x8_local k_def)
  qed
  show "let k = tr * tileCols + (if even tr then tc else tileCols - 1 - tc) in
           0 \<le> k \<and> k < tileRows * tileCols
           \<and> (\<lambda>(x, y). remap8x8 tileCols x y) ` ({8 * tc ..< 8 * tc + 8} \<times> {8 * tr ..< 8 * tr + 8})
               = {64 * k ..< 64 * k + 64}
           \<and> (\<forall>x \<in> {8 * tc ..< 8 * tc + 8}. \<forall>y \<in> {8 * tr ..< 8 * tr + 8}.
                 remap8x8 tileCols x y = 64 * k + (8 * (y mod 8) + x mod 8))"
    unfolding Let_def k_def [symmetric]
    using k0 k1 local remap8x8_block [of tileCols tc tr] by (simp add: k_def)
qed

section \<open>The 2D setters\<close>

lemma pixelSetXYClip_outside:
  "\<not> (0 \<le> x \<and> x < numLEDsX self \<and> 0 \<le> y \<and> y < numLEDsY self)
     \<Longrightarrow> pixelSetXYClip self x y colour = Inr self"
  by (auto simp add: pixelSetXYClip_def)

lemma pixelSetXY_wraps:
  assumes "geometry_ok self" "0 \<le> colour" "colour < 2 ^ 32"
  shows "0 \<le> remap self (x mod numLEDsX self) (y mod numLEDsY self)"
    "remap self (x mod numLEDsX self) (y mod numLEDsY self) < int (length (ar self))"
    "pixelSetXY self x y colour = Inr (self\<lparr>ar :=
       (ar self)[nat (remap self (x mod numLEDsX self) (y mod numLEDsY self)) := colour]\<rparr>)"
proof -
  let ?i = "remap self (x mod numLEDsX self) (y mod numLEDsY self)"
  have X: "0 < numLEDsX self" and Y: "0 < numLEDsY self"
    using assms(1) by (simp_all add: geometry_ok_def)
  have xin: "x mod numLEDsX self \<in> {0 ..< numLEDsX self}" using X by simp
  have yin: "y mod numLEDsY self \<in> {0 ..< numLEDsY self}" using Y by simp
  show i: "0 \<le> ?i" "?i < int (length (ar self))"
    using assms(1) xin yin unfolding geometry_ok_def by blast+
  show "pixelSetXY self x y colour = Inr (self\<lparr>ar := (ar self)[nat ?i := colour]\<rparr>)"
    using X Y i assms(2,3) array_setitem_in_range [of ?i "ar self" colour]
    by (simp add: pixelSetXY_def Let_def)
qed

text \<open>
  C5. Outside the canvas the clipped setter returns the device as it was. The wrapping
  setter, on a well-formed matrix and for a colour the buffer can hold, writes the
  colour to the cell of the coordinate taken modulo the dimensions, which lies on the
  canvas and in the buffer, whatever the sign of the coordinate.
\<close>

theorem clip_discards_wrap_writes:
  "(\<not> (0 \<le> x \<and> x < numLEDsX self \<and> 0 \<le> y \<and> y < numLEDsY self)
      \<longrightarrow> pixelSetXYClip self x y colour = Inr self)
   \<and> (geometry_ok self \<and> 0 \<le> colour \<and> colour < 2 ^ 32 \<longrightarrow>
        (let xw = x mod numLEDsX self; yw = y mod numLEDsY self; i = remap self xw yw in
           0 \<le> xw \<and> xw < numLEDsX self \<and> 0 \<le> yw \<and> yw < numLEDsY self
           \<and> 0 \<le> i \<and> i < int (length (ar self))
           \<and> pixelSetXY self x y colour = Inr (self\<lparr>ar := (ar self)[nat i := colour]\<rparr>)))"
proof (intro conjI impI)
  assume "\<not> (0 \<le> x \<and> x < numLEDsX self \<and> 0 \<le> y \<and> y < numLEDsY self)"
  then show "pixelSetXYClip self x y colour = Inr self" by (rule pixelSetXYClip_outside)
next
  assume a: "geometry_ok self \<and> 0 \<le> colour \<and> colour < 2 ^ 32"
  then have "0 < numLEDsX self" "0 < numLEDsY self" by (simp_all add: geometry_ok_def)
  then show "let xw = x mod numLEDsX self; yw = y mod numLEDsY self; i = remap self xw yw in
           0 \<le> xw \<and> xw < numLEDsX self \<and> 0 \<le> yw \<and> yw < numLEDsY self
           \<and> 0 \<le> i \<and> i < int (length (ar self))
           \<and> pixelSetXY self x y colour = Inr (self\<lparr>ar := (ar self)[nat i := colour]\<rparr>)"
    using pixelSetXY_wraps [of self colour x y] a by (simp add: Let_def)
qed

text \<open>
  C10. \<open>getPixelXY\<close> raises NameError for every coordinate, on every device.
\<close>

theorem getPixelXY_raises: "getPixelXY module_globals self x y = Inl NameError"
  by (simp add: getPixelXY_def module_globals_def)

section \<open>The flush\<close>

lemma red_channel: "drop_bit 16 (c::int) AND 0xFF = drop_bit 16 (c AND 0xFF0000)"
  unfolding mask_FF mask_FF0000 by (rule bit_eqI) (auto simp add: bit_simps)

lemma green_channel: "drop_bit 8 (c::int) AND 0xFF = drop_bit 8 (c AND 0xFF00)"
  unfolding mask_FF mask_FF00 by (rule bit_eqI) (auto simp add: bit_simps)

lemma channels_range:
  "glowbitColour2RGB c = (r, g, b) \<Longrightarrow> 0 \<le> r \<and> r \<le> 255 \<and> 0 \<le> g \<and> g \<le> 255 \<and> 0 \<le> b \<and> b \<le> 255"
proof -
  assume a: "glowbitColour2RGB c = (r, g, b)"
  have r: "r = take_bit 8 (drop_bit 16 c)" and g: "g = take_bit 8 (drop_bit 8 c)"
    and b: "b = take_bit 8 c"
    using a red_channel [of c] green_channel [of c]
    by (auto simp add: glowbitColour2RGB_def take_bit_eq_mask mask_FF)
  have "\<And>x::int. 0 \<le> take_bit 8 x \<and> take_bit 8 x \<le> 255"
    using take_bit_int_less_exp [of 8] by (simp add: order_less_le_trans zle_diff1_eq [symmetric] del: zle_diff1_eq)
  then show ?thesis unfolding r g b by blast
qed

lemma scaled_range:
  assumes "0 \<le> (ch::int)" "ch \<le> 255" "0 \<le> (br::int)" "br \<le> 255"
  shows "0 \<le> (ch * br) div 256" "(ch * br) div 256 \<le> 255"
proof -
  have "ch * br \<le> 255 * 255" using assms by (intro mult_mono) simp_all
  then show "(ch * br) div 256 \<le> 255" by linarith
  have "0 \<le> ch * br" using assms by simp
  then show "0 \<le> (ch * br) div 256" by (simp add: pos_imp_zdiv_nonneg_iff)
qed

lemma scaled_unpack:
  assumes "0 \<le> br" "br \<le> 255"
  shows "glowbitColour2RGB (case scaled_channels 256 br c of (r, g, b) \<Rightarrow> rgb2GBColour r g b)
           = scaled_channels 256 br c"
proof -
  obtain r g b where c: "glowbitColour2RGB c = (r, g, b)" by (cases "glowbitColour2RGB c")
  note rg = channels_range [OF c]
  show ?thesis
    using scaled_range [of r br] scaled_range [of g br] scaled_range [of b br] rg assms
    by (simp add: scaled_channels_def c unpack_pack)
qed


lemma code_RGB:
  "push_bit 16 (drop_bit 8 ((drop_bit 16 c AND 0xFF) * br))
     OR push_bit 8 (drop_bit 8 ((drop_bit 8 c AND 0xFF) * br))
     OR drop_bit 8 ((c AND 0xFF) * br) = wire_RGB br c"
  unfolding red_channel green_channel
  by (simp add: wire_RGB_def scaled_channels_def glowbitColour2RGB_def rgb2GBColour_def
      drop_bit_eq_div)

lemma code_GRB:
  "push_bit 16 (drop_bit 8 ((drop_bit 8 c AND 0xFF) * br))
     OR push_bit 8 (drop_bit 8 ((drop_bit 16 c AND 0xFF) * br))
     OR drop_bit 8 ((c AND 0xFF) * br) = wire_GRB br c"
  unfolding red_channel green_channel
  by (simp add: wire_GRB_def scaled_channels_def glowbitColour2RGB_def rgb2GBColour_def
      drop_bit_eq_div)

lemma pack_bytes_range:
  assumes "0 \<le> r" "r \<le> 255" "0 \<le> g" "g \<le> 255" "0 \<le> b" "b \<le> 255"
  shows "0 \<le> rgb2GBColour r g b" "rgb2GBColour r g b < 2 ^ 32"
proof -
  have "rgb2GBColour (take_bit 8 r) (take_bit 8 g) (take_bit 8 b)
          = take_bit 24 (rgb2GBColour (take_bit 8 r) (take_bit 8 g) (take_bit 8 b))"
    unfolding rgb2GBColour_def by (rule bit_eqI) (auto simp add: bit_simps)
  then have e: "rgb2GBColour r g b = take_bit 24 (rgb2GBColour r g b)"
    using assms by (simp add: byte_take_bit)
  show "0 \<le> rgb2GBColour r g b" by (subst e) simp
  have "take_bit 24 (rgb2GBColour r g b) < 2 ^ 24" by (rule take_bit_int_less_exp)
  then show "rgb2GBColour r g b < 2 ^ 32" using e by simp
qed

lemma wire_GRB_range:
  assumes "0 \<le> br" "br \<le> 255"
  shows "0 \<le> wire_GRB br c" "wire_GRB br c < 2 ^ 32"
proof -
  obtain r g b where c: "glowbitColour2RGB c = (r, g, b)" by (cases "glowbitColour2RGB c")
  note rg = channels_range [OF c]
  have p: "0 \<le> rgb2GBColour ((g * br) div 256) ((r * br) div 256) ((b * br) div 256)
      \<and> rgb2GBColour ((g * br) div 256) ((r * br) div 256) ((b * br) div 256) < 2 ^ 32"
    using scaled_range [of r br] scaled_range [of g br] scaled_range [of b br] rg assms
      pack_bytes_range [of "(g * br) div 256" "(r * br) div 256" "(b * br) div 256"]
    by simp
  show "0 \<le> wire_GRB br c" "wire_GRB br c < 2 ^ 32"
    using p by (simp_all add: wire_GRB_def scaled_channels_def c)
qed

lemma wire_RGB_unpack:
  "0 \<le> br \<Longrightarrow> br \<le> 255 \<Longrightarrow> glowbitColour2RGB (wire_RGB br c) = scaled_channels 256 br c"
  unfolding wire_RGB_def by (rule scaled_unpack)

lemma wire_GRB_unpack:
  assumes "0 \<le> br" "br \<le> 255"
  shows "glowbitColour2RGB (wire_GRB br c) =
           (case scaled_channels 256 br c of (r, g, b) \<Rightarrow> (g, r, b))"
proof -
  obtain r g b where c: "glowbitColour2RGB c = (r, g, b)" by (cases "glowbitColour2RGB c")
  note rg = channels_range [OF c]
  show ?thesis
    using scaled_range [of r br] scaled_range [of g br] scaled_range [of b br] rg assms
    by (simp add: wire_GRB_def scaled_channels_def c unpack_pack)
qed

lemma syncWait_poll_returns:
  assumes "rate \<noteq> 0" "\<forall>t \<in> set pre. t < lastFrame + 1000 div rate"
    "lastFrame + 1000 div rate \<le> now"
  shows "syncWait_poll lastFrame rate (pre @ now # rest) = Done rest"
  using assms by (induction pre) simp_all

lemma syncWait_poll_Done:
  "syncWait_poll lastFrame rate ticks = Done rest \<Longrightarrow>
     rate \<noteq> 0 \<and> (\<exists>pre now. ticks = pre @ now # rest
        \<and> (\<forall>t \<in> set pre. t < lastFrame + 1000 div rate)
        \<and> lastFrame + 1000 div rate \<le> now)"
proof (induction ticks)
  case Nil
  then show ?case by simp
next
  case (Cons t ticks)
  show ?case
  proof (cases "rate = 0")
    case True
    with Cons.prems show ?thesis by simp
  next
    case False
    show ?thesis
    proof (cases "t < lastFrame + 1000 div rate")
      case True
      with False Cons.prems have "syncWait_poll lastFrame rate ticks = Done rest" by simp
      from Cons.IH [OF this] obtain pre now where
        "ticks = pre @ now # rest" "\<forall>t \<in> set pre. t < lastFrame + 1000 div rate"
        "lastFrame + 1000 div rate \<le> now" by blast
      with True have "t # ticks = (t # pre) @ now # rest
        \<and> (\<forall>u \<in> set (t # pre). u < lastFrame + 1000 div rate)
        \<and> lastFrame + 1000 div rate \<le> now" by simp
      with False show ?thesis by blast
    next
      case ge: False
      with False Cons.prems have "ticks = rest" by simp
      with ge False have "t # ticks = [] @ t # rest
        \<and> (\<forall>u \<in> set []. u < lastFrame + 1000 div rate)
        \<and> lastFrame + 1000 div rate \<le> t" by simp
      with False show ?thesis by blast
    qed
  qed
qed

lemma syncWait_returns:
  assumes "rateLimit self \<noteq> 0"
    "\<forall>t \<in> set pre. t < lastFrame_ms self + 1000 div rateLimit self"
    "lastFrame_ms self + 1000 div rateLimit self \<le> now"
  shows "syncWait self (pre @ now # nxt # rest) = Done (self\<lparr>lastFrame_ms := nxt\<rparr>, rest)"
  using syncWait_poll_returns [OF assms, of "nxt # rest"] by (simp add: syncWait_def)

lemma pixelsShowRPi_returns:
  assumes "rateLimit self \<noteq> 0"
    "\<forall>t \<in> set pre. t < lastFrame_ms self + 1000 div rateLimit self"
    "lastFrame_ms self + 1000 div rateLimit self \<le> now"
  shows "pixelsShowRPi self (pre @ now # nxt # rest) =
     Done (self\<lparr>lastFrame_ms := nxt\<rparr>, rest,
       map (\<lambda>(i, c). strip_setPixelColor (int i) (wire_RGB (brightness self) c))
         (enumerate 0 (ar self)) @ [strip_show])"
  unfolding pixelsShowRPi_def syncWait_returns [OF assms]
  by (simp add: Let_def code_RGB)


lemma pico_loop:
  assumes "0 \<le> br" "br \<le> 255" "n + length cs \<le> length dar"
  shows "for_each
           (\<lambda>(dar, calls) (i, c).
              let r = drop_bit 8 ((drop_bit 16 c AND 0xFF) * br);
                  g = drop_bit 8 ((drop_bit 8 c AND 0xFF) * br);
                  b = drop_bit 8 ((c AND 0xFF) * br)
              in case array_setitem dar (int i) (push_bit 16 g OR push_bit 8 r OR b) of
                   Inl e \<Rightarrow> Inl e
                 | Inr dar' \<Rightarrow>
                     (case array_getitem dar' (int i) of
                        Inl e \<Rightarrow> Inl e
                      | Inr v \<Rightarrow> Inr (dar', calls @ [sm_put v 8])))
           (enumerate n cs) (dar, calls)
         = Inr (take n dar @ map (wire_GRB br) cs @ drop (n + length cs) dar,
                calls @ map (\<lambda>c. sm_put (wire_GRB br c) 8) cs)"
  using assms(3)
proof (induction cs arbitrary: n dar calls)
  case Nil
  then show ?case by simp
next
  case (Cons c cs)
  have n: "n < length dar" using Cons.prems by simp
  have set: "array_setitem dar (int n) (wire_GRB br c) = Inr (dar[n := wire_GRB br c])"
    using array_setitem_in_range [of "int n" dar "wire_GRB br c"] n
      wire_GRB_range [OF assms(1,2), of c] by simp
  have get: "array_getitem (dar[n := wire_GRB br c]) (int n) = Inr (wire_GRB br c)"
    using array_getitem_in_range [of "int n" "dar[n := wire_GRB br c]"] n by simp
  have len: "Suc n + length cs \<le> length (dar[n := wire_GRB br c])"
    using Cons.prems by simp
  have shape: "take (Suc n) (dar[n := wire_GRB br c]) @ map (wire_GRB br) cs
        @ drop (Suc n + length cs) (dar[n := wire_GRB br c])
      = take n dar @ map (wire_GRB br) (c # cs) @ drop (n + length (c # cs)) dar"
    using n by (simp add: take_Suc_conv_app_nth)
  show ?case
    using Cons.IH [OF len, of "calls @ [sm_put (wire_GRB br c) 8]"] shape
    by (simp add: Let_def code_GRB set get)
qed

lemma pixelsShowPico_returns:
  assumes "rateLimit self \<noteq> 0"
    "\<forall>t \<in> set pre. t < lastFrame_ms self + 1000 div rateLimit self"
    "lastFrame_ms self + 1000 div rateLimit self \<le> now"
    and br: "0 \<le> brightness self" "brightness self \<le> 255"
    and len: "length (dimmer_ar self) = length (ar self)"
  shows "pixelsShowPico self (pre @ now # nxt # rest) =
     Done (self\<lparr>lastFrame_ms := nxt, dimmer_ar := map (wire_GRB (brightness self)) (ar self)\<rparr>,
       rest, map (\<lambda>c. sm_put (wire_GRB (brightness self) c) 8) (ar self))"
proof -
  have "0 + length (ar self) \<le> length (dimmer_ar self)" using len by simp
  from pico_loop [OF br this, of "[]"] show ?thesis
    unfolding pixelsShowPico_def syncWait_returns [OF assms(1-3)]
    using len by (simp add: Let_def)
qed

text \<open>
  C1, as the code has it. Once the rate limiter lets the flush through, with a
  brightness in \<open>[0,255]\<close>, the transport receives for every buffer entry, in order, the
  colour whose channels are \<open>floor(channel * brightness / 256)\<close> (the code shifts right by
  8): in R,G,B order through \<open>setPixelColor\<close> followed by \<open>show\<close> on the Linux
  backend, in G,R,B order through \<open>sm.put\<close> on the microcontroller backend. The pixel
  buffer \<open>ar\<close> is the same after the flush.
\<close>

theorem flush_scales_channels:
  "rateLimit self \<noteq> 0
   \<and> (\<forall>t \<in> set pre. t < lastFrame_ms self + 1000 div rateLimit self)
   \<and> lastFrame_ms self + 1000 div rateLimit self \<le> now
   \<and> 0 \<le> brightness self \<and> brightness self \<le> 255
   \<longrightarrow>
     pixelsShowRPi self (pre @ now # nxt # rest) =
       Done (self\<lparr>lastFrame_ms := nxt\<rparr>, rest,
         map (\<lambda>(i, c). strip_setPixelColor (int i) (wire_RGB (brightness self) c))
           (enumerate 0 (ar self)) @ [strip_show])
     \<and> ar (self\<lparr>lastFrame_ms := nxt\<rparr>) = ar self
     \<and> (length (dimmer_ar self) = length (ar self) \<longrightarrow>
          pixelsShowPico self (pre @ now # nxt # rest) =
            Done (self\<lparr>lastFrame_ms := nxt,
                        dimmer_ar := map (wire_GRB (brightness self)) (ar self)\<rparr>,
              rest, map (\<lambda>c. sm_put (wire_GRB (brightness self) c) 8) (ar self))
          \<and> ar (self\<lparr>lastFrame_ms := nxt,
                        dimmer_ar := map (wire_GRB (brightness self)) (ar self)\<rparr>) = ar self)
     \<and> (\<forall>c. glowbitColour2RGB (wire_RGB (brightness self) c)
               = scaled_channels 256 (brightness self) c
            \<and> glowbitColour2RGB (wire_GRB (brightness self) c)
               = (case scaled_channels 256 (brightness self) c of (r, g, b) \<Rightarrow> (g, r, b)))"
proof (intro impI)
  assume a: "rateLimit self \<noteq> 0
   \<and> (\<forall>t \<in> set pre. t < lastFrame_ms self + 1000 div rateLimit self)
   \<and> lastFrame_ms self + 1000 div rateLimit self \<le> now
   \<and> 0 \<le> brightness self \<and> brightness self \<le> 255"
  then have w: "rateLimit self \<noteq> 0"
    "\<forall>t \<in> set pre. t < lastFrame_ms self + 1000 div rateLimit self"
    "lastFrame_ms self + 1000 div rateLimit self \<le> now"
    and br: "0 \<le> brightness self" "brightness self \<le> 255" by simp_all
  show "pixelsShowRPi self (pre @ now # nxt # rest) =
       Done (self\<lparr>lastFrame_ms := nxt\<rparr>, rest,
         map (\<lambda>(i, c). strip_setPixelColor (int i) (wire_RGB (brightness self) c))
           (enumerate 0 (ar self)) @ [strip_show])
     \<and> ar (self\<lparr>lastFrame_ms := nxt\<rparr>) = ar self
     \<and> (length (dimmer_ar self) = length (ar self) \<longrightarrow>
          pixelsShowPico self (pre @ now # nxt # rest) =
            Done (self\<lparr>lastFrame_ms := nxt,
                        dimmer_ar := map (wire_GRB (brightness self)) (ar self)\<rparr>,
              rest, map (\<lambda>c. sm_put (wire_GRB (brightness self) c) 8) (ar self))
          \<and> ar (self\<lparr>lastFrame_ms := nxt,
                        dimmer_ar := map (wire_GRB (brightness self)) (ar self)\<rparr>) = ar self)
     \<and> (\<forall>c. glowbitColour2RGB (wire_RGB (brightness self) c)
               = scaled_channels 256 (brightness self) c
            \<and> glowbitColour2RGB (wire_GRB (brightness self) c)
               = (case scaled_channels 256 (brightness self) c of (r, g, b) \<Rightarrow> (g, r, b)))"
    using pixelsShowRPi_returns [OF w, of nxt rest] pixelsShowPico_returns [OF w br, of nxt rest]
      wire_RGB_unpack [OF br] wire_GRB_unpack [OF br]
    by simp
qed

theorem flush_scales_channels_witness:
  "pixelsShowRPi
     \<lparr>ar = [0xFFFFFF, 0x102030], dimmer_ar = [0, 0], brightness = 255, rateLimit = 10,
      lastFrame_ms = 0, numLEDs = 2, pixelsShow = pixelsShowRPi_method\<rparr>
     [40, 100, 101] =
   Done (\<lparr>ar = [0xFFFFFF, 0x102030], dimmer_ar = [0, 0], brightness = 255, rateLimit = 10,
      lastFrame_ms = 101, numLEDs = 2, pixelsShow = pixelsShowRPi_method\<rparr>, [],
     [strip_setPixelColor 0 (wire_RGB 255 0xFFFFFF), strip_setPixelColor 1 (wire_RGB 255 0x102030),
      strip_show])
   \<and> glowbitColour2RGB (wire_RGB 255 0xFFFFFF) = scaled_channels 256 255 0xFFFFFF"
  using flush_scales_channels [where self = "\<lparr>ar = [0xFFFFFF, 0x102030], dimmer_ar = [0, 0],
      brightness = 255, rateLimit = 10,
      lastFrame_ms = 0, numLEDs = 2, pixelsShow = pixelsShowRPi_method\<rparr>"
      and pre = "[40]" and now = 100 and nxt = 101 and rest = "[]"]
  by (simp add: enumerate_eq_zip)

text \<open>
  C1, as the specification words it, divides by 255. A buffer holding \<open>0xFFFFFF\<close> flushed
  at brightness 255 hands over \<open>0xFEFEFE\<close>, channels 254, where division by 255 gives 255.
\<close>

theorem flush_divides_by_255_counterexample:
  "pixelsShowRPi
     \<lparr>ar = [0xFFFFFF], dimmer_ar = [0], brightness = 255, rateLimit = 10,
      lastFrame_ms = 0, numLEDs = 1, pixelsShow = pixelsShowRPi_method\<rparr>
     [100, 101] =
   Done (\<lparr>ar = [0xFFFFFF], dimmer_ar = [0], brightness = 255, rateLimit = 10,
      lastFrame_ms = 101, numLEDs = 1, pixelsShow = pixelsShowRPi_method\<rparr>, [],
     [strip_setPixelColor 0 0xFEFEFE, strip_show])
   \<and> glowbitColour2RGB 0xFEFEFE = (254, 254, 254)
   \<and> scaled_channels 255 255 0xFFFFFF = (255, 255, 255)
   \<and> glowbitColour2RGB 0xFEFEFE \<noteq> scaled_channels 255 255 0xFFFFFF"
  by (simp add: pixelsShowRPi_def syncWait_def Let_def scaled_channels_def
      glowbitColour2RGB_def enumerate_eq_zip)

section \<open>The rate limiter\<close>

text \<open>
  What the wait guarantees, over the readings of the clock. A wait that returns has
  polled readings below \<open>lastFrame_ms + 1000 // rateLimit\<close>, then one at or above it,
  and has stored the reading after that one in \<open>lastFrame_ms\<close>. With a clock that never
  goes back, the values of \<open>lastFrame_ms\<close> left by two consecutive flushes are at
  least \<open>1000 // rateLimit\<close> apart. The times at which the transport is called are
  measured with \<open>pixelsShowRPi_stamped\<close>.
\<close>

lemma syncWait_Done:
  assumes "syncWait self ticks = Done (self', rest)"
  shows "rateLimit self \<noteq> 0 \<and> (\<exists>pre now nxt. ticks = pre @ now # nxt # rest
     \<and> (\<forall>t \<in> set pre. t < lastFrame_ms self + 1000 div rateLimit self)
     \<and> lastFrame_ms self + 1000 div rateLimit self \<le> now
     \<and> self' = self\<lparr>lastFrame_ms := nxt\<rparr>)"
proof (cases "syncWait_poll (lastFrame_ms self) (rateLimit self) ticks")
  case (Done after)
  then obtain nxt where after: "after = nxt # rest" and s: "self' = self\<lparr>lastFrame_ms := nxt\<rparr>"
    using assms by (cases after) (simp_all add: syncWait_def)
  from syncWait_poll_Done [OF Done [unfolded after]] s show ?thesis by blast
next
  case (Raise e)
  with assms show ?thesis by (simp add: syncWait_def)
next
  case Spin
  with assms show ?thesis by (simp add: syncWait_def)
qed

lemma pixelsShowRPi_Done:
  assumes "pixelsShowRPi self ticks = Done (self', rest, calls)"
  shows "syncWait self ticks = Done (self', rest)"
    "calls = map (\<lambda>(i, c). strip_setPixelColor (int i) (wire_RGB (brightness self) c))
               (enumerate 0 (ar self)) @ [strip_show]"
proof -
  obtain s r where w: "syncWait self ticks = Done (s, r)"
    using assms by (cases "syncWait self ticks") (auto simp add: pixelsShowRPi_def)
  from syncWait_Done [OF w] obtain nxt where s: "s = self\<lparr>lastFrame_ms := nxt\<rparr>" by blast
  from assms w have e: "self' = s" "rest = r"
    and c: "calls = map (\<lambda>(i, c). strip_setPixelColor (int i) (wire_RGB (brightness s) c))
               (enumerate 0 (ar s)) @ [strip_show]"
    by (auto simp add: pixelsShowRPi_def Let_def code_RGB)
  show "syncWait self ticks = Done (self', rest)" using w e by simp
  show "calls = map (\<lambda>(i, c). strip_setPixelColor (int i) (wire_RGB (brightness self) c))
               (enumerate 0 (ar self)) @ [strip_show]"
    using c s by simp
qed

lemma sorted_append_Cons_le:
  "sorted (xs @ (a::int) # ys) \<Longrightarrow> b \<in> set ys \<Longrightarrow> a \<le> b"
  by (simp add: sorted_append)

lemma consecutive_frames:
  assumes clock: "sorted ticks"
    and first: "pixelsShowRPi self ticks = Done (self1, ticks1, calls1)"
    and second: "pixelsShowRPi self1 ticks1 = Done (self2, ticks2, calls2)"
  shows "lastFrame_ms self1 + 1000 div rateLimit self \<le> lastFrame_ms self2"
proof -
  from syncWait_Done [OF pixelsShowRPi_Done(1) [OF first]]
  obtain nxt1 where s1: "self1 = self\<lparr>lastFrame_ms := nxt1\<rparr>" by blast
  from syncWait_Done [OF pixelsShowRPi_Done(1) [OF second]]
  obtain pre now nxt2 where t1: "ticks1 = pre @ now # nxt2 # ticks2"
    and d: "lastFrame_ms self1 + 1000 div rateLimit self1 \<le> now"
    and s2: "self2 = self1\<lparr>lastFrame_ms := nxt2\<rparr>" by blast
  from syncWait_Done [OF pixelsShowRPi_Done(1) [OF first]]
  obtain pre0 where "ticks = pre0 @ ticks1" by (metis append.assoc append_Cons append_Nil)
  then have "sorted ticks1" using clock by (simp add: sorted_append)
  then have "now \<le> nxt2" unfolding t1 by (simp add: sorted_append)
  then show ?thesis using d s1 s2 by simp
qed

lemma pixelsShowRPi_stamped_Done:
  assumes "pixelsShowRPi_stamped self ticks = Done (self', rest, push)"
  shows "rateLimit self \<noteq> 0 \<and> (\<exists>pre now. ticks = pre @ now # lastFrame_ms self' # push # rest
     \<and> (\<forall>t \<in> set pre. t < lastFrame_ms self + 1000 div rateLimit self)
     \<and> lastFrame_ms self + 1000 div rateLimit self \<le> now)
     \<and> self' = self\<lparr>lastFrame_ms := lastFrame_ms self'\<rparr>"
proof -
  obtain s r c where f: "pixelsShowRPi self ticks = Done (s, r, c)"
    using assms by (cases "pixelsShowRPi self ticks") (auto simp add: pixelsShowRPi_stamped_def)
  with assms have r: "r = push # rest" and s: "s = self'"
    by (cases r; simp add: pixelsShowRPi_stamped_def)+
  from syncWait_Done [OF pixelsShowRPi_Done(1) [OF f]] r s show ?thesis by auto
qed

lemma pixelsShowRPi_stamped_returns:
  assumes "rateLimit self \<noteq> 0"
    "\<forall>t \<in> set pre. t < lastFrame_ms self + 1000 div rateLimit self"
    "lastFrame_ms self + 1000 div rateLimit self \<le> now"
  shows "pixelsShowRPi_stamped self (pre @ now # nxt # push # rest)
           = Done (self\<lparr>lastFrame_ms := nxt\<rparr>, rest, push)"
  using pixelsShowRPi_returns [OF assms, of nxt "push # rest"]
  by (simp add: pixelsShowRPi_stamped_def)

text \<open>
  C3, as the code has it. The wait returns once a reading of the clock is at or above
  \<open>lastFrame_ms + 1000 // rateLimit\<close>, having seen only readings below it before, and
  sets \<open>lastFrame_ms\<close> to the next reading; the flush then hands its frame over. With a
  clock that never goes back, the \<open>lastFrame_ms\<close> of two consecutive flushes are at
  least \<open>1000 // rateLimit\<close> apart (100 ms for 10 frames per second), each push
  happens no earlier than the \<open>lastFrame_ms\<close> of its flush, and the second push
  happens at least that interval after the \<open>lastFrame_ms\<close> of the first flush.
\<close>

theorem rate_limiter_spacing:
  "(rateLimit self \<noteq> 0
      \<and> (\<forall>t \<in> set pre. t < lastFrame_ms self + 1000 div rateLimit self)
      \<and> lastFrame_ms self + 1000 div rateLimit self \<le> now
    \<longrightarrow> syncWait self (pre @ now # nxt # rest) = Done (self\<lparr>lastFrame_ms := nxt\<rparr>, rest)
        \<and> pixelsShowRPi_stamped self (pre @ now # nxt # push # rest)
             = Done (self\<lparr>lastFrame_ms := nxt\<rparr>, rest, push))
   \<and> (sorted ticks
      \<and> pixelsShowRPi_stamped self ticks = Done (self1, ticks1, push1)
      \<and> pixelsShowRPi_stamped self1 ticks1 = Done (self2, ticks2, push2)
    \<longrightarrow> lastFrame_ms self1 + 1000 div rateLimit self \<le> lastFrame_ms self2
        \<and> lastFrame_ms self1 \<le> push1
        \<and> lastFrame_ms self1 + 1000 div rateLimit self \<le> push2
        \<and> (rateLimit self = 10 \<longrightarrow> lastFrame_ms self1 + 100 \<le> lastFrame_ms self2
              \<and> lastFrame_ms self1 + 100 \<le> push2))"
proof (intro conjI impI)
  assume a: "rateLimit self \<noteq> 0
      \<and> (\<forall>t \<in> set pre. t < lastFrame_ms self + 1000 div rateLimit self)
      \<and> lastFrame_ms self + 1000 div rateLimit self \<le> now"
  then show "syncWait self (pre @ now # nxt # rest) = Done (self\<lparr>lastFrame_ms := nxt\<rparr>, rest)"
    using syncWait_returns [of self pre now nxt rest] by blast
  from a show "pixelsShowRPi_stamped self (pre @ now # nxt # push # rest)
             = Done (self\<lparr>lastFrame_ms := nxt\<rparr>, rest, push)"
    using pixelsShowRPi_stamped_returns [of self pre now nxt push rest] by blast
next
  assume b: "sorted ticks
      \<and> pixelsShowRPi_stamped self ticks = Done (self1, ticks1, push1)
      \<and> pixelsShowRPi_stamped self1 ticks1 = Done (self2, ticks2, push2)"
  then have clock: "sorted ticks"
    and f1: "pixelsShowRPi_stamped self ticks = Done (self1, ticks1, push1)"
    and f2: "pixelsShowRPi_stamped self1 ticks1 = Done (self2, ticks2, push2)" by simp_all
  from pixelsShowRPi_stamped_Done [OF f1] obtain pre1 now1 where
    t: "ticks = pre1 @ now1 # lastFrame_ms self1 # push1 # ticks1"
    and s1: "self1 = self\<lparr>lastFrame_ms := lastFrame_ms self1\<rparr>" by blast
  from pixelsShowRPi_stamped_Done [OF f2] obtain pre2 now2 where
    t1: "ticks1 = pre2 @ now2 # lastFrame_ms self2 # push2 # ticks2"
    and d: "lastFrame_ms self1 + 1000 div rateLimit self1 \<le> now2" by blast
  have r: "rateLimit self1 = rateLimit self" by (subst s1) simp
  have so: "sorted (pre1 @ now1 # lastFrame_ms self1 # push1 # pre2 @ now2
      # lastFrame_ms self2 # push2 # ticks2)"
    using clock unfolding t t1 .
  then have o1: "lastFrame_ms self1 \<le> push1" by (simp add: sorted_append)
  from so have o2: "now2 \<le> lastFrame_ms self2" "lastFrame_ms self2 \<le> push2"
    by (simp_all add: sorted_append)
  show g1: "lastFrame_ms self1 + 1000 div rateLimit self \<le> lastFrame_ms self2"
    using d r o2 by simp
  show "lastFrame_ms self1 \<le> push1" by (rule o1)
  show g2: "lastFrame_ms self1 + 1000 div rateLimit self \<le> push2"
    using d r o2 by simp
  { assume "rateLimit self = 10"
    then show "lastFrame_ms self1 + 100 \<le> lastFrame_ms self2" using g1 by simp }
  { assume "rateLimit self = 10"
    then show "lastFrame_ms self1 + 100 \<le> push2" using g2 by simp }
qed

theorem rate_limiter_spacing_witness:
  "pixelsShowRPi_stamped
        \<lparr>ar = [0], dimmer_ar = [0], brightness = 20, rateLimit = 10,
         lastFrame_ms = 0, numLEDs = 1, pixelsShow = pixelsShowRPi_method\<rparr>
        [40, 100, 101, 130, 201, 202, 203]
      = Done (\<lparr>ar = [0], dimmer_ar = [0], brightness = 20, rateLimit = 10,
         lastFrame_ms = 101, numLEDs = 1, pixelsShow = pixelsShowRPi_method\<rparr>,
         [201, 202, 203], 130)
   \<and> (101 :: int) + 100 \<le> 202 \<and> (101 :: int) \<le> 130 \<and> (101 :: int) + 100 \<le> 203"
proof -
  let ?d0 = "\<lparr>ar = [0], dimmer_ar = [0], brightness = 20, rateLimit = 10,
         lastFrame_ms = 0, numLEDs = 1, pixelsShow = pixelsShowRPi_method\<rparr>"
  let ?d1 = "?d0\<lparr>lastFrame_ms := 101\<rparr>"
  let ?d2 = "?d0\<lparr>lastFrame_ms := 202\<rparr>"
  have first: "pixelsShowRPi_stamped ?d0 ([40] @ 100 # 101 # 130 # [201, 202, 203])
      = Done (?d1, [201, 202, 203], 130)"
    using rate_limiter_spacing [where self = ?d0 and pre = "[40]" and now = 100 and nxt = 101
        and push = 130 and rest = "[201, 202, 203]"]
    by simp
  have second: "pixelsShowRPi_stamped ?d1 ([] @ 201 # 202 # 203 # [])
      = Done (?d2, [], 203)"
    using rate_limiter_spacing [where self = ?d1 and pre = "[]" and now = 201 and nxt = 202
        and push = 203 and rest = "[]"]
    by simp
  have "lastFrame_ms ?d1 + 100 \<le> lastFrame_ms ?d2 \<and> lastFrame_ms ?d1 \<le> 130
      \<and> lastFrame_ms ?d1 + 100 \<le> 203"
    using rate_limiter_spacing [where self = ?d0 and ticks = "[40, 100, 101, 130, 201, 202, 203]"
        and ?self1.0 = ?d1 and ?ticks1.0 = "[201, 202, 203]" and ?push1.0 = 130
        and ?self2.0 = ?d2 and ?ticks2.0 = "[]" and ?push2.0 = 203] first second
    by simp
  with first show ?thesis by simp
qed

text \<open>
  C3, as the specification words it, puts the interval between the two pushes. At 10
  frames per second, a first flush whose wait ends at 101 and whose push happens at 130,
  followed by a flush whose wait ends at 202 and whose push happens at 203, has its
  \<open>lastFrame_ms\<close> values 101 ms apart and its pushes 73 ms apart.
\<close>

theorem rate_limiter_push_gap_counterexample:
  "sorted [100, 101, 130, 201, 202, 203 :: int]
   \<and> pixelsShowRPi_stamped
        \<lparr>ar = [0], dimmer_ar = [0], brightness = 20, rateLimit = 10,
         lastFrame_ms = 0, numLEDs = 1, pixelsShow = pixelsShowRPi_method\<rparr>
        [100, 101, 130, 201, 202, 203]
      = Done (\<lparr>ar = [0], dimmer_ar = [0], brightness = 20, rateLimit = 10,
         lastFrame_ms = 101, numLEDs = 1, pixelsShow = pixelsShowRPi_method\<rparr>,
         [201, 202, 203], 130)
   \<and> pixelsShowRPi_stamped
        \<lparr>ar = [0], dimmer_ar = [0], brightness = 20, rateLimit = 10,
         lastFrame_ms = 101, numLEDs = 1, pixelsShow = pixelsShowRPi_method\<rparr>
        [201, 202, 203]
      = Done (\<lparr>ar = [0], dimmer_ar = [0], brightness = 20, rateLimit = 10,
         lastFrame_ms = 202, numLEDs = 1, pixelsShow = pixelsShowRPi_method\<rparr>,
         [], 203)
   \<and> \<not> (130 + 100 \<le> (203 :: int))"
  by (simp add: pixelsShowRPi_stamped_def pixelsShowRPi_def syncWait_def Let_def)

section \<open>Adding colours\<close>

lemma channels_div_mod:
  "glowbitColour2RGB c = ((c div 65536) mod 256, (c div 256) mod 256, c mod 256)"
proof -
  have "drop_bit 16 (c AND 0xFF0000) = take_bit 8 (drop_bit 16 c)"
    unfolding red_channel [symmetric] by (simp add: take_bit_eq_mask mask_FF)
  moreover have "drop_bit 8 (c AND 0xFF00) = take_bit 8 (drop_bit 8 c)"
    unfolding green_channel [symmetric] by (simp add: take_bit_eq_mask mask_FF)
  moreover have "c AND 0xFF = take_bit 8 c"
    by (simp add: take_bit_eq_mask mask_FF)
  ultimately show ?thesis
    by (simp add: glowbitColour2RGB_def take_bit_eq_mod drop_bit_eq_div)
qed

lemma byte_carry:
  fixes A B :: int
  assumes "A mod 256 + B mod 256 = 256"
  shows "(A + B) mod 256 = 0" "(A + B) div 256 = A div 256 + B div 256 + 1"
proof -
  have "(A + B) mod 256 = (A mod 256 + B mod 256) mod 256" by (simp add: mod_add_eq)
  then show "(A + B) mod 256 = 0" using assms by simp
  have "(A + B) div 256 = A div 256 + B div 256 + (A mod 256 + B mod 256) div 256"
    by (rule div_add1_eq)
  then show "(A + B) div 256 = A div 256 + B div 256 + 1" using assms by simp
qed

lemma div_65536: "(x::int) div 65536 = x div 256 div 256"
  using zdiv_zmult2_eq [of 256 x 256] by simp

lemma div_16777216: "(x::int) div 16777216 = x div 65536 div 256"
  using zdiv_zmult2_eq [of 256 x 65536] by simp

lemma no_carry_below:
  fixes a b :: int
  assumes "a mod 256 + b mod 256 < 256"
  shows "(a + b) div 256 = a div 256 + b div 256"
proof -
  have "0 \<le> a mod 256 + b mod 256" by (simp add: add_nonneg_nonneg)
  then have "(a mod 256 + b mod 256) div 256 = 0" using assms by (simp add: div_pos_pos_trivial)
  then show ?thesis using div_add1_eq [of a b 256] by simp
qed

lemma blue_carry:
  fixes a b :: int
  assumes "a mod 256 + b mod 256 = 256"
  shows "(a + b) mod 256 = 0" "drop_bit 8 (a + b) = drop_bit 8 a + drop_bit 8 b + 1"
  using byte_carry [OF assms] by (simp_all add: drop_bit_eq_div)

lemma green_carry:
  fixes a b :: int
  assumes "(a div 256) mod 256 + (b div 256) mod 256 = 256" "a mod 256 + b mod 256 < 256"
  shows "((a + b) div 256) mod 256 = 0" "drop_bit 16 (a + b) = drop_bit 16 a + drop_bit 16 b + 1"
proof -
  have d: "(a + b) div 256 = a div 256 + b div 256"
    using no_carry_below [OF assms(2)] .
  show "((a + b) div 256) mod 256 = 0" unfolding d using byte_carry(1) [OF assms(1)] .
  have "(a + b) div 65536 = (a div 256 + b div 256) div 256"
    unfolding div_65536 [of "a + b"] d ..
  also have "\<dots> = a div 65536 + b div 65536 + 1"
    unfolding div_65536 [of a] div_65536 [of b] using byte_carry(2) [OF assms(1)] .
  finally show "drop_bit 16 (a + b) = drop_bit 16 a + drop_bit 16 b + 1"
    by (simp add: drop_bit_eq_div)
qed

lemma red_carry:
  fixes a b :: int
  assumes "(a div 65536) mod 256 + (b div 65536) mod 256 = 256"
    "(a div 256) mod 256 + (b div 256) mod 256 < 256" "a mod 256 + b mod 256 < 256"
  shows "((a + b) div 65536) mod 256 = 0" "drop_bit 24 (a + b) = drop_bit 24 a + drop_bit 24 b + 1"
proof -
  have d8: "(a + b) div 256 = a div 256 + b div 256"
    using no_carry_below [OF assms(3)] .
  have d: "(a + b) div 65536 = a div 65536 + b div 65536"
    unfolding div_65536 [of "a + b"] div_65536 [of a] div_65536 [of b] d8
    using no_carry_below [OF assms(2)] .
  show "((a + b) div 65536) mod 256 = 0" unfolding d using byte_carry(1) [OF assms(1)] .
  have "(a + b) div 16777216 = (a div 65536 + b div 65536) div 256"
    unfolding div_16777216 [of "a + b"] d ..
  also have "\<dots> = a div 16777216 + b div 16777216 + 1"
    unfolding div_16777216 [of a] div_16777216 [of b] using byte_carry(2) [OF assms(1)] .
  finally show "drop_bit 24 (a + b) = drop_bit 24 a + drop_bit 24 b + 1"
    by (simp add: drop_bit_eq_div)
qed

lemma pixelAdd_in_range:
  assumes "0 \<le> i" "i < int (length (ar self))"
    "0 \<le> ar self ! nat i + colour" "ar self ! nat i + colour < 2 ^ 32"
  shows "pixelAdd self i colour = Inr (self\<lparr>ar := (ar self)[nat i := ar self ! nat i + colour]\<rparr>)"
  using assms by (simp add: pixelAdd_def array_getitem_in_range array_setitem_in_range Let_def)

text \<open>
  C6. For an index inside the buffer, \<open>pixelAdd\<close> stores the plain integer sum of the
  old entry and the colour (the sum has to be an item the array can hold). Nothing
  saturates: when the two blue channels add up to 256 the blue channel of the sum is 0
  and everything above it is one more than the sum of the parts above; the same for
  green and for red when no carry arrives from below.
\<close>

theorem pixelAdd_raw_sum:
  "0 \<le> i \<and> i < int (length (ar self))
   \<and> 0 \<le> ar self ! nat i + colour \<and> ar self ! nat i + colour < 2 ^ 32
   \<longrightarrow>
     pixelAdd self i colour = Inr (self\<lparr>ar := (ar self)[nat i := ar self ! nat i + colour]\<rparr>)
     \<and> (case (glowbitColour2RGB (ar self ! nat i), glowbitColour2RGB colour,
               glowbitColour2RGB (ar self ! nat i + colour)) of
          ((r1, g1, b1), (r2, g2, b2), (r, g, b)) \<Rightarrow>
            (b1 + b2 = 256 \<longrightarrow>
               b = 0 \<and> drop_bit 8 (ar self ! nat i + colour)
                        = drop_bit 8 (ar self ! nat i) + drop_bit 8 colour + 1)
          \<and> (g1 + g2 = 256 \<and> b1 + b2 < 256 \<longrightarrow>
               g = 0 \<and> drop_bit 16 (ar self ! nat i + colour)
                        = drop_bit 16 (ar self ! nat i) + drop_bit 16 colour + 1)
          \<and> (r1 + r2 = 256 \<and> g1 + g2 < 256 \<and> b1 + b2 < 256 \<longrightarrow>
               r = 0 \<and> drop_bit 24 (ar self ! nat i + colour)
                        = drop_bit 24 (ar self ! nat i) + drop_bit 24 colour + 1))"
proof (intro impI conjI)
  assume "0 \<le> i \<and> i < int (length (ar self))
   \<and> 0 \<le> ar self ! nat i + colour \<and> ar self ! nat i + colour < 2 ^ 32"
  then show "pixelAdd self i colour
      = Inr (self\<lparr>ar := (ar self)[nat i := ar self ! nat i + colour]\<rparr>)"
    using pixelAdd_in_range [of i self colour] by simp
next
  show "case (glowbitColour2RGB (ar self ! nat i), glowbitColour2RGB colour,
               glowbitColour2RGB (ar self ! nat i + colour)) of
          ((r1, g1, b1), (r2, g2, b2), (r, g, b)) \<Rightarrow>
            (b1 + b2 = 256 \<longrightarrow>
               b = 0 \<and> drop_bit 8 (ar self ! nat i + colour)
                        = drop_bit 8 (ar self ! nat i) + drop_bit 8 colour + 1)
          \<and> (g1 + g2 = 256 \<and> b1 + b2 < 256 \<longrightarrow>
               g = 0 \<and> drop_bit 16 (ar self ! nat i + colour)
                        = drop_bit 16 (ar self ! nat i) + drop_bit 16 colour + 1)
          \<and> (r1 + r2 = 256 \<and> g1 + g2 < 256 \<and> b1 + b2 < 256 \<longrightarrow>
               r = 0 \<and> drop_bit 24 (ar self ! nat i + colour)
                        = drop_bit 24 (ar self ! nat i) + drop_bit 24 colour + 1)"
    unfolding channels_div_mod prod.case
    using blue_carry [of "ar self ! nat i" colour] green_carry [of "ar self ! nat i" colour]
      red_carry [of "ar self ! nat i" colour]
    by blast
qed

theorem pixelAdd_raw_sum_witness:
  "pixelAdd \<lparr>ar = [0x0000FF, 0x00FF00], dimmer_ar = [0, 0], brightness = 20, rateLimit = 30,
       lastFrame_ms = 0, numLEDs = 2, pixelsShow = pixelsShowPico_method\<rparr> 0 0x000001
     = Inr \<lparr>ar = [0x000100, 0x00FF00], dimmer_ar = [0, 0], brightness = 20, rateLimit = 30,
       lastFrame_ms = 0, numLEDs = 2, pixelsShow = pixelsShowPico_method\<rparr>
   \<and> glowbitColour2RGB 0x0000FF = (0, 0, 255) \<and> glowbitColour2RGB 0x000001 = (0, 0, 1)
   \<and> glowbitColour2RGB (0x0000FF + 0x000001) = (0, 1, 0)
   \<and> drop_bit 8 (0x0000FF + 0x000001 :: int) = drop_bit 8 (0x0000FF :: int) + drop_bit 8 (0x000001 :: int) + 1"
  using pixelAdd_raw_sum [where self = "\<lparr>ar = [0x0000FF, 0x00FF00], dimmer_ar = [0, 0],
       brightness = 20, rateLimit = 30,
       lastFrame_ms = 0, numLEDs = 2, pixelsShow = pixelsShowPico_method\<rparr>"
      and i = 0 and colour = "0x000001"]
  by (simp add: channels_div_mod)


section \<open>Filling, blanking and the constructors\<close>

lemma fill_loop:
  assumes "0 \<le> v" "v < 2 ^ 32" "k \<le> length a"
  shows "for_each (\<lambda>a i. array_setitem a i v) [int k .. int (length a) - 1] a
           = Inr (take k a @ replicate (length a - k) v)"
  using assms(3)
proof (induction "length a - k" arbitrary: k a)
  case 0
  then have "k = length a" by simp
  then show ?case by simp
next
  case (Suc d)
  then have k: "k < length a" by simp
  have u: "[int k .. int (length a) - 1] = int k # [int (Suc k) .. int (length a) - 1]"
    using k by (simp add: upto_rec1 add.commute)
  have s: "array_setitem a (int k) v = Inr (a[k := v])"
    using array_setitem_in_range [of "int k" a v] k assms(1,2) by simp
  have d: "d = length (a[k := v]) - Suc k" using Suc.hyps(2) by simp
  have l: "Suc k \<le> length (a[k := v])" using k by simp
  have "for_each (\<lambda>a i. array_setitem a i v) [int (Suc k) .. int (length (a[k := v])) - 1] (a[k := v])
      = Inr (take (Suc k) (a[k := v]) @ replicate (length (a[k := v]) - Suc k) v)"
    by (rule Suc.hyps(1) [OF d l])
  moreover have "take (Suc k) (a[k := v]) @ replicate (length (a[k := v]) - Suc k) v
      = take k a @ replicate (length a - k) v"
    using k by (simp add: take_Suc_conv_app_nth replicate_app_Cons_same Suc_diff_Suc
        flip: replicate_Suc)
  ultimately show ?case unfolding u by (simp add: s)
qed

lemma pixelsFill_in_range:
  assumes "0 \<le> colour" "colour < 2 ^ 32"
  shows "pixelsFill self colour = Inr (self\<lparr>ar := replicate (length (ar self)) colour\<rparr>)"
  using fill_loop [OF assms, of 0 "ar self"] by (simp add: pixelsFill_def)

lemma wire_GRB_zero: "wire_GRB br 0 = 0"
  by (simp add: wire_GRB_def scaled_channels_def glowbitColour2RGB_def rgb2GBColour_def)

lemma blankDisplay_Pico_returns:
  assumes "pixelsShow self = pixelsShowPico_method" "rateLimit self \<noteq> 0"
    "\<forall>t \<in> set pre. t < lastFrame_ms self + 1000 div rateLimit self"
    "lastFrame_ms self + 1000 div rateLimit self \<le> now"
    "0 \<le> brightness self" "brightness self \<le> 255"
    "length (dimmer_ar self) = length (ar self)"
  shows "blankDisplay self (pre @ now # nxt # rest) =
     Done (self\<lparr>ar := replicate (length (ar self)) 0, lastFrame_ms := nxt,
                 dimmer_ar := replicate (length (ar self)) 0\<rparr>,
           rest, replicate (length (ar self)) (sm_put 0 8))"
proof -
  let ?s = "self\<lparr>ar := replicate (length (ar self)) 0\<rparr>"
  have f: "for_each (\<lambda>a i. array_setitem a i 0) [0 .. int (length (ar self)) - 1] (ar self)
      = Inr (replicate (length (ar self)) 0)"
    using fill_loop [of 0 0 "ar self"] by simp
  have "pixelsShowPico ?s (pre @ now # nxt # rest) =
     Done (?s\<lparr>lastFrame_ms := nxt, dimmer_ar := map (wire_GRB (brightness ?s)) (ar ?s)\<rparr>,
       rest, map (\<lambda>c. sm_put (wire_GRB (brightness ?s) c) 8) (ar ?s))"
    using assms by (intro pixelsShowPico_returns) simp_all
  then show ?thesis
    using assms(1) by (simp add: blankDisplay_def f call_pixelsShow_def wire_GRB_zero)
qed

lemma matrix8x8_init_returns:
  assumes "0 \<le> br" "br \<le> 255"
    and "\<forall>t \<in> set pre. t < t0 + 1000 div
           rateLimit (matrix8x8_fields tileRows tileCols br mapFunction fps cps t0)"
    "t0 + 1000 div rateLimit (matrix8x8_fields tileRows tileCols br mapFunction fps cps t0) \<le> now"
  shows "matrix8x8_init tileRows tileCols br mapFunction fps cps (t0 # pre @ now # nxt # rest) =
     Done ((matrix8x8_fields tileRows tileCols br mapFunction fps cps t0)\<lparr>lastFrame_ms := nxt\<rparr>,
       rest, replicate (nat (tileRows * tileCols * 64)) (sm_put 0 8))"
proof -
  define self where "self = matrix8x8_fields tileRows tileCols br mapFunction fps cps t0"
  have r: "rateLimit self \<noteq> 0" unfolding self_def by (simp add: matrix8x8_fields_def)
  have b: "blankDisplay self (pre @ now # nxt # rest) =
     Done (self\<lparr>ar := replicate (length (ar self)) 0, lastFrame_ms := nxt,
                 dimmer_ar := replicate (length (ar self)) 0\<rparr>,
           rest, replicate (length (ar self)) (sm_put 0 8))"
    using assms r unfolding self_def [symmetric]
    by (intro blankDisplay_Pico_returns) (simp_all add: self_def matrix8x8_fields_def)
  have e: "self\<lparr>ar := replicate (length (ar self)) 0, lastFrame_ms := nxt,
                 dimmer_ar := replicate (length (ar self)) 0\<rparr> = self\<lparr>lastFrame_ms := nxt\<rparr>"
    unfolding self_def by (simp add: matrix8x8_fields_def)
  have l: "length (ar self) = nat (tileRows * tileCols * 64)"
    unfolding self_def by (simp add: matrix8x8_fields_def)
  have "blankDisplay self (pre @ now # nxt # rest) =
     Done (self\<lparr>lastFrame_ms := nxt\<rparr>, rest,
       replicate (nat (tileRows * tileCols * 64)) (sm_put 0 8))"
    unfolding b e unfolding l ..
  then show ?thesis
    by (simp add: matrix8x8_init_def self_def)
qed

lemma geometry_ok_matrix8x8:
  assumes "0 < tileRows" "0 < tileCols"
  shows "geometry_ok (matrix8x8_fields tileRows tileCols br None fps cps now)"
proof -
  have "0 < tileRows * tileCols" using assms by simp
  then have len: "int (nat (tileRows * tileCols * 64)) = 64 * (tileRows * tileCols)" by simp
  show ?thesis
    unfolding geometry_ok_def matrix8x8_fields_def
    using assms remap8x8_range [of _ tileCols _ tileRows] len
    by (simp add: mult.commute)
qed

lemma geometry_ok_matrix4x4:
  assumes "0 < tiles"
  shows "geometry_ok (matrix4x4_fields tiles br None fps now)"
  unfolding geometry_ok_def matrix4x4_fields_def
  using assms remap4x4_range [of _ tiles] by (simp add: mult.commute)

lemma geometry_ok_update:
  "geometry_ok self \<Longrightarrow> length a = length (ar self)
     \<Longrightarrow> geometry_ok (self\<lparr>ar := a, lastFrame_ms := t, dimmer_ar := d\<rparr>)"
  by (simp add: geometry_ok_def)

lemma matrix4x4_init_returns:
  assumes "0 \<le> br" "br \<le> 255"
    and first: "\<forall>t \<in> set pre1. t < t0 + 1000 div
           rateLimit (matrix4x4_fields tiles br mapFunction fps t0)"
      "t0 + 1000 div rateLimit (matrix4x4_fields tiles br mapFunction fps t0) \<le> now1"
    and second: "\<forall>t \<in> set pre2. t < nxt1 + 1000 div
           rateLimit (matrix4x4_fields tiles br mapFunction fps t0)"
      "nxt1 + 1000 div rateLimit (matrix4x4_fields tiles br mapFunction fps t0) \<le> now2"
  shows "matrix4x4_init tiles br mapFunction fps
           (t0 # pre1 @ now1 # nxt1 # pre2 @ now2 # nxt2 # rest) =
     Done ((matrix4x4_fields tiles br mapFunction fps t0)\<lparr>lastFrame_ms := nxt2\<rparr>,
       rest, replicate (nat (tiles * 16)) (sm_put 0 8) @ replicate (nat (tiles * 16)) (sm_put 0 8))"
proof -
  define self where "self = matrix4x4_fields tiles br mapFunction fps t0"
  have r: "rateLimit self \<noteq> 0" unfolding self_def by (simp add: matrix4x4_fields_def)
  have fields: "pixelsShow self = pixelsShowPico_method" "brightness self = br"
    "ar self = replicate (nat (tiles * 16)) 0" "dimmer_ar self = replicate (nat (tiles * 16)) 0"
    "lastFrame_ms self = t0"
    unfolding self_def by (simp_all add: matrix4x4_fields_def)
  have fill: "pixelsFill self 0 = Inr self"
    using pixelsFill_in_range [of 0 self] by (simp add: fields)
  have z: "map (wire_GRB br) (replicate (nat (tiles * 16)) 0) = replicate (nat (tiles * 16)) 0"
    by (simp add: wire_GRB_zero)
  have show1: "pixelsShowPico self (pre1 @ now1 # nxt1 # pre2 @ now2 # nxt2 # rest) =
     Done (self\<lparr>lastFrame_ms := nxt1\<rparr>, pre2 @ now2 # nxt2 # rest,
       replicate (nat (tiles * 16)) (sm_put 0 8))"
    using pixelsShowPico_returns [of self pre1 now1 nxt1 "pre2 @ now2 # nxt2 # rest"]
      r first assms(1,2) unfolding self_def [symmetric]
    by (simp add: fields z wire_GRB_zero)
  have show2: "pixelsShowPico (self\<lparr>lastFrame_ms := nxt1\<rparr>) (pre2 @ now2 # nxt2 # rest) =
     Done (self\<lparr>lastFrame_ms := nxt2\<rparr>, rest, replicate (nat (tiles * 16)) (sm_put 0 8))"
    using pixelsShowPico_returns [of "self\<lparr>lastFrame_ms := nxt1\<rparr>" pre2 now2 nxt2 rest]
      r second assms(1,2) unfolding self_def [symmetric]
    by (simp add: fields z wire_GRB_zero)
  show ?thesis
    unfolding matrix4x4_init_def list.case unfolding self_def [symmetric]
    by (simp add: fill call_pixelsShow_def fields show1 show2)
qed


section \<open>Instances on constructed matrices\<close>

theorem remap8x8_serpentine_tiles_witness:
  "(0::int) \<le> 0 \<and> (0::int) < 2 \<and> (0::int) \<le> 1 \<and> (1::int) < 2
   \<and> (\<lambda>(x, y). remap8x8 2 x y) ` ({0 ..< 8} \<times> {8 ..< 16}) = {192 ..< 256}
   \<and> remap8x8 2 3 9 = 64 * 3 + (8 * 1 + 3)"
proof -
  have t: "(\<lambda>(x, y). remap8x8 2 x y) ` ({0 ..< 8} \<times> {8 ..< 16}) = {192 ..< 256}
      \<and> (\<forall>x \<in> {0 ..< 8}. \<forall>y \<in> {8 ..< 16}. remap8x8 2 x y = 192 + (8 * (y mod 8) + x mod 8))"
    using remap8x8_serpentine_tiles [where tc = 0 and tileCols = 2 and tr = 1 and tileRows = 2]
    by (simp add: Let_def)
  then have "remap8x8 2 3 9 = 192 + (8 * (9 mod 8) + 3 mod 8)" by simp
  with t show ?thesis by simp
qed

theorem clip_discards_wrap_writes_witness:
  "geometry_ok (matrix8x8_fields 1 2 20 None (- 1) (- 1) 0)
   \<and> pixelSetXYClip (matrix8x8_fields 1 2 20 None (- 1) (- 1) 0) 16 0 0xFF0000
       = Inr (matrix8x8_fields 1 2 20 None (- 1) (- 1) 0)
   \<and> pixelSetXY (matrix8x8_fields 1 2 20 None (- 1) (- 1) 0) (- 1) 9 0xFF0000
       = Inr ((matrix8x8_fields 1 2 20 None (- 1) (- 1) 0)
                \<lparr>ar := (ar (matrix8x8_fields 1 2 20 None (- 1) (- 1) 0))[79 := 0xFF0000]\<rparr>)"
proof -
  let ?M = "matrix8x8_fields 1 2 20 None (- 1) (- 1) 0"
  have g: "geometry_ok ?M" by (rule geometry_ok_matrix8x8) simp_all
  have d: "numLEDsX ?M = 16" "numLEDsY ?M = 8" "remap ?M = remap8x8 2"
    by (simp_all add: matrix8x8_fields_def)
  have r: "remap8x8 2 15 1 = 79" by (simp add: remap8x8_def)
  have "pixelSetXYClip ?M 16 0 0xFF0000 = Inr ?M"
    using clip_discards_wrap_writes [where self = ?M and x = 16 and y = 0 and colour = "0xFF0000"]
    by (simp add: d)
  moreover have "pixelSetXY ?M (- 1) 9 0xFF0000 = Inr (?M\<lparr>ar := (ar ?M)[79 := 0xFF0000]\<rparr>)"
    using clip_discards_wrap_writes [where self = ?M and x = "- 1" and y = 9 and colour = "0xFF0000"] g
    by (simp add: d r Let_def)
  ultimately show ?thesis using g by simp
qed

section \<open>Filled rectangles\<close>

lemma upto_0_2: "[0 .. (2::int)] = [0, 1, 2]" by (simp add: upto.simps)
lemma upto_3_4: "[3 .. (4::int)] = [3, 4]" by (simp add: upto.simps)

lemma pixelSetXY_4x4:
  assumes "numLEDsX self = 4" "numLEDsY self = 4" "remap self = remap4x4"
    "length (ar self) = 16" "0 \<le> colour" "colour < 2 ^ 32"
  shows "pixelSetXY self x y colour
           = Inr (self\<lparr>ar := (ar self)[nat (4 * (y mod 4) + x mod 4) := colour]\<rparr>)"
proof -
  have r: "remap4x4 (x mod 4) (y mod 4) = 4 * (y mod 4) + x mod 4"
    by (simp add: remap4x4_def Let_def)
  have "0 \<le> 4 * (y mod 4) + x mod 4" "4 * (y mod 4) + x mod 4 < 16"
    using pos_mod_bound [of 4 x] pos_mod_bound [of 4 y] pos_mod_sign [of 4 x] pos_mod_sign [of 4 y]
    by linarith+
  then show ?thesis
    using assms array_setitem_in_range [of "4 * (y mod 4) + x mod 4" "ar self" colour]
    by (simp add: pixelSetXY_def Let_def r)
qed

lemma coords_4: "x \<in> {0 ..< (4::int)} \<Longrightarrow> x = 0 \<or> x = 1 \<or> x = 2 \<or> x = 3"
  by auto

lemma filled_cells_4x4:
  assumes "length a = 16" "x \<in> {0 ..< (4::int)}" "y \<in> {0 ..< (4::int)}"
  shows "a[0 := c, 4 := c, 8 := c, 1 := c, 5 := c, 9 := c, 2 := c, 6 := c, 10 := c]
           ! nat (remap4x4 x y)
         = (if x \<le> 2 \<and> y \<le> 2 then c else a ! nat (remap4x4 x y))"
  using coords_4 [OF assms(2)] coords_4 [OF assms(3)] assms(1)
  by (elim disjE) (simp_all add: remap4x4_def Let_def)

text \<open>
  C8. On a 4x4 matrix (one 4x4 tile: both dimensions 4, sixteen buffer entries, the 4x4
  remapper) \<open>drawRectangleFill(0,0,2,2,colour)\<close> writes the colour to the nine cells with
  x and y in \<open>[0,2]\<close> and leaves the seven others as they were. The writes go through
  the wrapping setter: \<open>drawRectangleFill(3,3,4,4,colour)\<close> colours (3,3), (3,0), (0,3)
  and (0,0), the coordinates of (3..4, 3..4) taken modulo 4, where the clipped setter
  would have coloured (3,3) alone.
\<close>

theorem drawRectangleFill_4x4:
  "numLEDsX self = 4 \<and> numLEDsY self = 4 \<and> remap self = remap4x4 \<and> length (ar self) = 16
   \<and> 0 \<le> colour \<and> colour < 2 ^ 32
   \<longrightarrow>
     (let filled = (ar self)[0 := colour, 4 := colour, 8 := colour,
                             1 := colour, 5 := colour, 9 := colour,
                             2 := colour, 6 := colour, 10 := colour]
      in drawRectangleFill self 0 0 2 2 colour = Inr (self\<lparr>ar := filled\<rparr>)
         \<and> (\<forall>x \<in> {0 ..< 4}. \<forall>y \<in> {0 ..< 4}.
               filled ! nat (remap self x y)
                 = (if x \<le> 2 \<and> y \<le> 2 then colour else ar self ! nat (remap self x y))))
     \<and> drawRectangleFill self 3 3 4 4 colour =
       Inr (self\<lparr>ar := (ar self)[15 := colour, 3 := colour, 12 := colour, 0 := colour]\<rparr>)"
proof (intro impI)
  assume a: "numLEDsX self = 4 \<and> numLEDsY self = 4 \<and> remap self = remap4x4
     \<and> length (ar self) = 16 \<and> 0 \<le> colour \<and> colour < 2 ^ 32"
  have step: "\<And>s x y. numLEDsX s = 4 \<Longrightarrow> numLEDsY s = 4 \<Longrightarrow> remap s = remap4x4
      \<Longrightarrow> length (ar s) = 16
      \<Longrightarrow> pixelSetXY s x y colour = Inr (s\<lparr>ar := (ar s)[nat (4 * (y mod 4) + x mod 4) := colour]\<rparr>)"
    using a pixelSetXY_4x4 by blast
  have fill: "drawRectangleFill self 0 0 2 2 colour =
       Inr (self\<lparr>ar := (ar self)[0 := colour, 4 := colour, 8 := colour,
                                 1 := colour, 5 := colour, 9 := colour,
                                 2 := colour, 6 := colour, 10 := colour]\<rparr>)"
    using a by (simp add: drawRectangleFill_def upto_0_2 step)
  have wrap: "drawRectangleFill self 3 3 4 4 colour =
       Inr (self\<lparr>ar := (ar self)[15 := colour, 3 := colour, 12 := colour, 0 := colour]\<rparr>)"
    using a by (simp add: drawRectangleFill_def upto_3_4 step)
  have cells: "\<forall>x \<in> {0 ..< 4}. \<forall>y \<in> {0 ..< 4}.
      (ar self)[0 := colour, 4 := colour, 8 := colour, 1 := colour, 5 := colour, 9 := colour,
                2 := colour, 6 := colour, 10 := colour] ! nat (remap self x y)
        = (if x \<le> 2 \<and> y \<le> 2 then colour else ar self ! nat (remap self x y))"
    using a filled_cells_4x4 [of "ar self" _ _ colour] by simp
  show "(let filled = (ar self)[0 := colour, 4 := colour, 8 := colour,
                             1 := colour, 5 := colour, 9 := colour,
                             2 := colour, 6 := colour, 10 := colour]
      in drawRectangleFill self 0 0 2 2 colour = Inr (self\<lparr>ar := filled\<rparr>)
         \<and> (\<forall>x \<in> {0 ..< 4}. \<forall>y \<in> {0 ..< 4}.
               filled ! nat (remap self x y)
                 = (if x \<le> 2 \<and> y \<le> 2 then colour else ar self ! nat (remap self x y))))
     \<and> drawRectangleFill self 3 3 4 4 colour =
       Inr (self\<lparr>ar := (ar self)[15 := colour, 3 := colour, 12 := colour, 0 := colour]\<rparr>)"
    unfolding Let_def using fill wrap cells by blast
qed

theorem drawRectangleFill_4x4_witness:
  "drawRectangleFill (matrix4x4_fields 1 20 None 30 0) 0 0 2 2 0xFF0000 =
     Inr ((matrix4x4_fields 1 20 None 30 0)
       \<lparr>ar := (ar (matrix4x4_fields 1 20 None 30 0))
                [0 := 0xFF0000, 4 := 0xFF0000, 8 := 0xFF0000,
                 1 := 0xFF0000, 5 := 0xFF0000, 9 := 0xFF0000,
                 2 := 0xFF0000, 6 := 0xFF0000, 10 := 0xFF0000]\<rparr>)
   \<and> drawRectangleFill (matrix4x4_fields 1 20 None 30 0) 3 3 4 4 0xFF0000 =
     Inr ((matrix4x4_fields 1 20 None 30 0)
       \<lparr>ar := (ar (matrix4x4_fields 1 20 None 30 0))
                [15 := 0xFF0000, 3 := 0xFF0000, 12 := 0xFF0000, 0 := 0xFF0000]\<rparr>)"
proof -
  let ?M = "matrix4x4_fields 1 20 None 30 0"
  have h: "numLEDsX ?M = 4 \<and> numLEDsY ?M = 4 \<and> remap ?M = remap4x4 \<and> length (ar ?M) = 16
     \<and> (0::int) \<le> 0xFF0000 \<and> (0xFF0000::int) < 2 ^ 32"
    by (simp add: matrix4x4_fields_def)
  show ?thesis
    using drawRectangleFill_4x4 [where self = ?M and colour = "0xFF0000"] h
    unfolding Let_def by blast
qed

section \<open>The graph constructor\<close>

lemma graph1D_init_unrecognised:
  assumes "direction \<notin> {''Up'', ''Down'', ''Left'', ''Right''}" "maxV \<noteq> minV"
    "\<bar>len\<bar> < (2 ^ 1024 - 2 ^ 970) * \<bar>maxV - minV\<bar>"
  shows "\<exists>g. snd (graph1D_init oX oY len direction minV maxV c cm u) = Inr g
     \<and> snd (graph1D_init oX oY len ''Down'' minV maxV c cm u) = Inr g
     \<and> orientation g = 1 \<and> inc g = 1
     \<and> fst (graph1D_init oX oY len direction minV maxV c cm u) \<noteq> []"
  using assms by (simp add: graph1D_init_def)

lemma graph1D_init_Up:
  assumes "maxV \<noteq> minV" "\<bar>len\<bar> < (2 ^ 1024 - 2 ^ 970) * \<bar>maxV - minV\<bar>"
  shows "\<exists>g. graph1D_init oX oY len ''Up'' minV maxV c cm u = ([], Inr g)
     \<and> orientation g = 1 \<and> inc g = - 1"
  using assms by (simp add: graph1D_init_def)

text \<open>
  C9. An unrecognised direction does not raise and prints the diagnostic, but the
  fields it leaves are not those of \<open>"Up"\<close>: the fallback sets \<open>orientation = 1\<close> and
  \<open>inc = 1\<close>, the fields of \<open>"Down"\<close>, while \<open>"Up"\<close> has \<open>inc = -1\<close>.
\<close>

theorem graph1D_fallback_is_Down:
  "graph1D_init 0 7 8 ''Sideways'' 0 255 0xFFFFFF (Named ''Solid'') False =
     ([''Invalid direction '' @ [CHR 0x22] @ '' Sideways '' @ [CHR 0x22] @ ''.'',
       ''Valid options: Up, Down, Left, Right'',
       ''Defaulting to Up''],
      Inr \<lparr>minValue = 0, maxValue = 255, originX = 0, originY = 7, length_g = 8,
           orientation = 1, inc = 1, update_g = False, colour_g = 0xFFFFFF,
           colourMap = Some colourMapSolid\<rparr>)
   \<and> graph1D_init 0 7 8 ''Up'' 0 255 0xFFFFFF (Named ''Solid'') False =
     ([], Inr \<lparr>minValue = 0, maxValue = 255, originX = 0, originY = 7, length_g = 8,
           orientation = 1, inc = - 1, update_g = False, colour_g = 0xFFFFFF,
           colourMap = Some colourMapSolid\<rparr>)
   \<and> graph1D_init 0 7 8 ''Down'' 0 255 0xFFFFFF (Named ''Solid'') False =
     ([], Inr \<lparr>minValue = 0, maxValue = 255, originX = 0, originY = 7, length_g = 8,
           orientation = 1, inc = 1, update_g = False, colour_g = 0xFFFFFF,
           colourMap = Some colourMapSolid\<rparr>)"
  by (simp add: graph1D_init_def)

end
